theory Spec2Isabelle
  imports Complex_Main "HOL-Library.Word"
begin

unbundle bit_operations_syntax

section \<open>Python values used by the service\<close>

text \<open>
  Exceptions are values: a computation that may raise returns \<open>exn + 'a\<close>, with
  \<open>Inl\<close> carrying the exception. Every exception listed here derives from Python's
  \<open>Exception\<close>, so an \<open>except Exception\<close> clause catches each of them.
\<close>

datatype exn = AddressValueError | ValueError | OSError | RequestException
  | SMTPException | StorageError

text \<open>
  Header values and addresses are Python \<open>str\<close> objects whose characters WSGI decodes
  from single bytes; they are modelled as \<open>string\<close> (a list of 8-bit characters).
\<close>

text \<open>\<open>s.split(sep)\<close> for a one-character separator: always at least one piece.\<close>

fun split_on :: "char \<Rightarrow> string \<Rightarrow> string list" where
  "split_on sep [] = [[]]"
| "split_on sep (c # cs) =
     (if c = sep then [] # split_on sep cs
      else (case split_on sep cs of
              [] \<Rightarrow> [[c]]
            | p # ps \<Rightarrow> (c # p) # ps))"

text \<open>\<open>str.isspace\<close> on the 256 single-byte characters.\<close>

definition isspace :: "char \<Rightarrow> bool" where
  "isspace c = (of_char c \<in> {9, 10, 11, 12, 13, 28, 29, 30, 31, 32, 133, 160 :: nat})"

definition strip :: "string \<Rightarrow> string" where
  "strip s = rev (dropWhile isspace (rev (dropWhile isspace s)))"

text \<open>\<open>s.partition(sep)\<close>: the part before the first separator, whether it was found,
  and the part after it.\<close>

definition partition_on :: "char \<Rightarrow> string \<Rightarrow> string \<times> bool \<times> string" where
  "partition_on sep s =
     (let before = takeWhile (\<lambda>c. c \<noteq> sep) s;
          rest = dropWhile (\<lambda>c. c \<noteq> sep) s
      in (before, rest \<noteq> [], tl rest))"

section \<open>The \<open>ipaddress\<close> module: parsing\<close>

text \<open>An address object: its version is the constructor, its integer the field \<open>_ip\<close>;
  an IPv6 address also carries its optional scope id.\<close>

datatype ip_addr = IPv4Address nat | IPv6Address nat "string option"

definition is_ascii_digit :: "char \<Rightarrow> bool" where
  "is_ascii_digit c = (48 \<le> (of_char c :: nat) \<and> (of_char c :: nat) \<le> 57)"

text \<open>\<open>int(s, 10)\<close> on a string of ASCII digits.\<close>

definition int_base10 :: "string \<Rightarrow> nat" where
  "int_base10 s = foldl (\<lambda>acc c. 10 * acc + (of_char c - 48)) 0 s"

text \<open>\<open>IPv4Address._parse_octet\<close>, check by check.\<close>

definition parse_octet :: "string \<Rightarrow> exn + nat" where
  "parse_octet octet_str =
     (if octet_str = [] then Inl ValueError
      else if \<not> list_all is_ascii_digit octet_str then Inl ValueError
      else if length octet_str > 3 then Inl ValueError
      else if octet_str \<noteq> ''0'' \<and> hd octet_str = CHR ''0'' then Inl ValueError
      else (let octet_int = int_base10 octet_str
            in if octet_int > 255 then Inl ValueError else Inr octet_int))"

text \<open>\<open>int.from_bytes(map(_parse_octet, octets), 'big')\<close>: the first failing octet
  raises, otherwise the octets are the base-256 digits.\<close>

fun from_octets :: "nat \<Rightarrow> string list \<Rightarrow> exn + nat" where
  "from_octets acc [] = Inr acc"
| "from_octets acc (octet_str # rest) =
     (case parse_octet octet_str of
        Inl e \<Rightarrow> Inl AddressValueError
      | Inr v \<Rightarrow> from_octets (256 * acc + v) rest)"

definition ipv4_int_from_string :: "string \<Rightarrow> exn + nat" where
  "ipv4_int_from_string ip_str =
     (if ip_str = [] then Inl AddressValueError
      else (let octets = split_on CHR ''.'' ip_str
            in if length octets \<noteq> 4 then Inl AddressValueError
               else from_octets 0 octets))"

text \<open>\<open>IPv4Address(addr_str)\<close> for a string argument.\<close>

definition ipv4_address :: "string \<Rightarrow> exn + nat" where
  "ipv4_address addr_str =
     (if CHR ''/'' \<in> set addr_str then Inl AddressValueError
      else ipv4_int_from_string addr_str)"

definition is_hex_digit :: "char \<Rightarrow> bool" where
  "is_hex_digit c = (c \<in> set ''0123456789ABCDEFabcdef'')"

definition hex_val :: "char \<Rightarrow> nat" where
  "hex_val c =
     (let n = (of_char c :: nat)
      in if n \<le> 57 then n - 48 else if n \<le> 70 then n - 55 else n - 87)"

text \<open>\<open>IPv6Address._parse_hextet\<close>; \<open>int('', 16)\<close> raises \<open>ValueError\<close>.\<close>

definition parse_hextet :: "string \<Rightarrow> exn + nat" where
  "parse_hextet hextet_str =
     (if \<not> list_all is_hex_digit hextet_str then Inl ValueError
      else if length hextet_str > 4 then Inl ValueError
      else if hextet_str = [] then Inl ValueError
      else Inr (foldl (\<lambda>acc c. 16 * acc + hex_val c) 0 hextet_str))"

text \<open>\<open>'%x' % n\<close>: lower-case hexadecimal without leading zeros.\<close>

definition hex_digit :: "nat \<Rightarrow> char" where
  "hex_digit d = ''0123456789abcdef'' ! d"

function hex_str :: "nat \<Rightarrow> string" where
  "hex_str n = (if n < 16 then [hex_digit n] else hex_str (n div 16) @ [hex_digit (n mod 16)])"
  by pat_completeness auto
termination
  by (relation "measure id") auto

text \<open>The loop that looks for a \<open>::\<close> strictly inside the list of parts.\<close>

fun find_skip :: "string list \<Rightarrow> nat list \<Rightarrow> nat option \<Rightarrow> exn + nat option" where
  "find_skip parts [] skip_index = Inr skip_index"
| "find_skip parts (i # rest) skip_index =
     (if parts ! i = []
      then (if skip_index \<noteq> None then Inl AddressValueError
            else find_skip parts rest (Some i))
      else find_skip parts rest skip_index)"

text \<open>The two loops that shift the hextets into the integer.\<close>

fun parse_hextets :: "nat \<Rightarrow> string list \<Rightarrow> exn + nat" where
  "parse_hextets ip_int [] = Inr ip_int"
| "parse_hextets ip_int (h # rest) =
     (case parse_hextet h of
        Inl e \<Rightarrow> Inl AddressValueError
      | Inr v \<Rightarrow> parse_hextets (push_bit 16 ip_int OR v) rest)"

text \<open>The IPv4-style suffix of an IPv6 address is replaced by two hextets.\<close>

definition expand_v4_suffix :: "string list \<Rightarrow> exn + string list" where
  "expand_v4_suffix parts =
     (if CHR ''.'' \<in> set (last parts)
      then (case ipv4_address (last parts) of
              Inl e \<Rightarrow> Inl AddressValueError
            | Inr ipv4_int \<Rightarrow>
                Inr (butlast parts @
                     [hex_str (drop_bit 16 ipv4_int AND 65535), hex_str (ipv4_int AND 65535)]))
      else Inr parts)"

definition ipv6_hextets :: "string list \<Rightarrow> nat \<Rightarrow> nat \<Rightarrow> nat \<Rightarrow> exn + nat" where
  "ipv6_hextets parts parts_hi parts_lo parts_skipped =
     (case parse_hextets 0 (take parts_hi parts) of
        Inl e \<Rightarrow> Inl e
      | Inr hi \<Rightarrow>
          parse_hextets (push_bit (16 * parts_skipped) hi)
            (drop (length parts - parts_lo) parts))"

definition ipv6_int_from_string :: "string \<Rightarrow> exn + nat" where
  "ipv6_int_from_string ip_str =
     (if ip_str = [] then Inl AddressValueError
      else (let parts0 = split_on CHR '':'' ip_str
            in if length parts0 < 3 then Inl AddressValueError
               else (case expand_v4_suffix parts0 of
                 Inl e \<Rightarrow> Inl e
               | Inr parts \<Rightarrow>
                   if length parts > 9 then Inl AddressValueError
                   else (case find_skip parts [1 ..< length parts - 1] None of
                     Inl e \<Rightarrow> Inl e
                   | Inr (Some skip_index) \<Rightarrow>
                       (let hi0 = skip_index;
                            lo0 = length parts - skip_index - 1;
                            parts_hi = (if hd parts = [] then hi0 - 1 else hi0);
                            parts_lo = (if last parts = [] then lo0 - 1 else lo0)
                        in if hd parts = [] \<and> parts_hi \<noteq> 0 then Inl AddressValueError
                           else if last parts = [] \<and> parts_lo \<noteq> 0 then Inl AddressValueError
                           else if 8 < parts_hi + parts_lo + 1 then Inl AddressValueError
                           else ipv6_hextets parts parts_hi parts_lo (8 - (parts_hi + parts_lo)))
                   | Inr None \<Rightarrow>
                       if length parts \<noteq> 8 then Inl AddressValueError
                       else if hd parts = [] then Inl AddressValueError
                       else if last parts = [] then Inl AddressValueError
                       else ipv6_hextets parts (length parts) 0 0))))"

text \<open>\<open>IPv6Address._split_scope_id\<close>.\<close>

definition split_scope_id :: "string \<Rightarrow> exn + (string \<times> string option)" where
  "split_scope_id ip_str =
     (case partition_on CHR ''%'' ip_str of
        (addr, sep, scope_id) \<Rightarrow>
          if \<not> sep then Inr (addr, None)
          else if scope_id = [] \<or> CHR ''%'' \<in> set scope_id then Inl AddressValueError
          else Inr (addr, Some scope_id))"

text \<open>\<open>IPv6Address(addr_str)\<close> for a string argument.\<close>

definition ipv6_address :: "string \<Rightarrow> exn + (nat \<times> string option)" where
  "ipv6_address addr_str =
     (if CHR ''/'' \<in> set addr_str then Inl AddressValueError
      else (case split_scope_id addr_str of
              Inl e \<Rightarrow> Inl e
            | Inr (addr, scope_id) \<Rightarrow>
                (case ipv6_int_from_string addr of
                   Inl e \<Rightarrow> Inl e
                 | Inr ip \<Rightarrow> Inr (ip, scope_id))))"

text \<open>\<open>ipaddress.ip_address\<close>: IPv4 first, then IPv6, else \<open>ValueError\<close>.\<close>

definition ip_address :: "string \<Rightarrow> exn + ip_addr" where
  "ip_address address =
     (case ipv4_address address of
        Inr ip \<Rightarrow> Inr (IPv4Address ip)
      | Inl e4 \<Rightarrow>
          (case ipv6_address address of
             Inr (ip, scope_id) \<Rightarrow> Inr (IPv6Address ip scope_id)
           | Inl e6 \<Rightarrow> Inl ValueError))"

section \<open>Networks and the private-range check\<close>

text \<open>A network object as \<open>__contains__\<close> reads it: version, network address, netmask.\<close>

record ip_network =
  net_version :: nat
  network_address :: nat
  netmask :: nat

text \<open>\<open>_ip_int_from_prefix\<close> for IPv4: all ones, without the low host bits.\<close>

definition ip_int_from_prefix :: "nat \<Rightarrow> nat" where
  "ip_int_from_prefix prefixlen = (2 ^ 32 - 1) XOR drop_bit prefixlen (2 ^ 32 - 1)"

text \<open>\<open>ip_network('a.b.c.d/p')\<close> for a well-formed IPv4 network without host bits.\<close>

definition ipv4_network :: "nat \<Rightarrow> nat \<Rightarrow> nat \<Rightarrow> nat \<Rightarrow> nat \<Rightarrow> ip_network" where
  "ipv4_network a b c d prefixlen =
     \<lparr>net_version = 4,
      network_address = ((a * 256 + b) * 256 + c) * 256 + d,
      netmask = ip_int_from_prefix prefixlen\<rparr>"

definition PRIV_RANGES :: "ip_network list" where
  "PRIV_RANGES =
     [ipv4_network 10 0 0 0 8,
      ipv4_network 172 16 0 0 12,
      ipv4_network 192 168 0 0 16,
      ipv4_network 127 0 0 0 8,
      ipv4_network 169 254 0 0 16]"

definition METADATA_IPS :: "string set" where
  "METADATA_IPS = {''169.254.169.254'', ''169.254.170.2'', ''100.100.100.200''}"

fun ip_version :: "ip_addr \<Rightarrow> nat" where
  "ip_version (IPv4Address ip) = 4"
| "ip_version (IPv6Address ip scope_id) = 6"

fun ip_int :: "ip_addr \<Rightarrow> nat" where
  "ip_int (IPv4Address ip) = ip"
| "ip_int (IPv6Address ip scope_id) = ip"

text \<open>\<open>other in net\<close> for an address \<open>other\<close> (\<open>_BaseNetwork.__contains__\<close>).\<close>

definition net_contains :: "ip_network \<Rightarrow> ip_addr \<Rightarrow> bool" where
  "net_contains net other =
     (if net_version net \<noteq> ip_version other then False
      else ip_int other AND netmask net = network_address net)"

text \<open>The loop over \<open>PRIV_RANGES\<close> with its early return.\<close>

fun in_ranges :: "ip_addr \<Rightarrow> ip_network list \<Rightarrow> bool" where
  "in_ranges ip [] = False"
| "in_ranges ip (net # rest) = (if net_contains net ip then True else in_ranges ip rest)"

definition is_private_ip_str :: "string \<Rightarrow> bool" where
  "is_private_ip_str ip_str =
     (case ip_address ip_str of
        Inl e \<Rightarrow> False
      | Inr ip \<Rightarrow> in_ranges ip PRIV_RANGES)"

section \<open>Decoding the body\<close>

text \<open>
  \<open>bytes.decode('utf-8', 'replace')\<close>: the decoded text is a list of code points. Each
  ill-formed stretch becomes one U+FFFD (65533): a byte that cannot start a character, a
  lead byte with the bytes read so far when the next one cannot continue it, or a
  truncated character at the end of the data.
\<close>

type_synonym byte = "8 word"
type_synonym ustr = "nat list"

definition is_continuation :: "nat \<Rightarrow> bool" where
  "is_continuation b = (128 \<le> b \<and> b < 192)"

definition second_ok3 :: "nat \<Rightarrow> nat \<Rightarrow> bool" where
  "second_ok3 b c =
     (is_continuation c \<and> \<not> (b = 224 \<and> c < 160) \<and> \<not> (b = 237 \<and> 160 \<le> c))"

definition second_ok4 :: "nat \<Rightarrow> nat \<Rightarrow> bool" where
  "second_ok4 b c =
     (is_continuation c \<and> \<not> (b = 240 \<and> c < 144) \<and> \<not> (b = 244 \<and> 144 \<le> c))"

fun utf8_decode :: "nat list \<Rightarrow> ustr" where
  "utf8_decode [] = []"
| "utf8_decode (b # bs) =
     (if b < 128 then b # utf8_decode bs
      else if b < 194 then 65533 # utf8_decode bs
      else if b < 224 then
        (case bs of
           [] \<Rightarrow> [65533]
         | c # cs \<Rightarrow>
             if is_continuation c then ((b - 192) * 64 + (c - 128)) # utf8_decode cs
             else 65533 # utf8_decode bs)
      else if b < 240 then
        (case bs of
           [] \<Rightarrow> [65533]
         | c # cs \<Rightarrow>
             if \<not> second_ok3 b c then 65533 # utf8_decode bs
             else (case cs of
                     [] \<Rightarrow> [65533]
                   | d # ds \<Rightarrow>
                       if is_continuation d
                       then (((b - 224) * 64 + (c - 128)) * 64 + (d - 128)) # utf8_decode ds
                       else 65533 # utf8_decode cs))
      else if b < 245 then
        (case bs of
           [] \<Rightarrow> [65533]
         | c # cs \<Rightarrow>
             if \<not> second_ok4 b c then 65533 # utf8_decode bs
             else (case cs of
                     [] \<Rightarrow> [65533]
                   | d # ds \<Rightarrow>
                       if \<not> is_continuation d then 65533 # utf8_decode cs
                       else (case ds of
                               [] \<Rightarrow> [65533]
                             | e # es \<Rightarrow>
                                 if is_continuation e
                                 then ((((b - 240) * 64 + (c - 128)) * 64 + (d - 128)) * 64
                                        + (e - 128)) # utf8_decode es
                                 else 65533 # utf8_decode ds)))
      else 65533 # utf8_decode bs)"

definition decode_utf8_replace :: "byte list \<Rightarrow> ustr" where
  "decode_utf8_replace body = utf8_decode (map unat body)"

section \<open>Configuration, requests and the stores\<close>

text \<open>The module-level settings read from the process environment.\<close>

record config =
  RATE_LIMIT_MAX :: int
  RATE_LIMIT_WINDOW :: int
  ALERT_WEBHOOK :: "string option"
  ALERT_EMAIL :: "string option"
  SMTP_HOST :: "string option"
  SMTP_USER :: "string option"
  SMTP_PASS :: "string option"

text \<open>Truth value of an optional string: \<open>None\<close> and the empty string are false.\<close>

fun truthy :: "string option \<Rightarrow> bool" where
  "truthy None = False"
| "truthy (Some s) = (s \<noteq> [])"

text \<open>
  What the handler reads of a request: the method, the two headers (absent as
  \<open>None\<close>), the transport peer, and the outcome of \<open>request.get_data()\<close>.
\<close>

record request =
  req_method :: string
  x_forwarded_for :: "string option"
  host_header :: "string option"
  peer_addr :: "string option"
  get_data :: "exn + byte list"

text \<open>
  What the outside world answers during one request: the clock (\<open>time.time()\<close>, a
  float in the source, an exact rational here: the limiter only subtracts the window and
  compares), the reverse lookup, and the outcome of \<open>db.session.commit()\<close>.
\<close>

record env =
  now :: rat
  gethostbyaddr :: "string \<Rightarrow> exn + string"
  commit :: "exn option"

record token_row =
  tok_token :: string
  tok_owner :: "string option"
  tok_expires_at :: "rat option"
  tok_active :: bool

text \<open>The columns of \<open>Event\<close> that the handler computes; \<open>ev_raw_body_preview\<close> is the
  \<open>body_preview\<close> entry of the \<open>raw\<close> snapshot.\<close>

record event =
  ev_token :: string
  ev_method :: string
  ev_body_preview :: ustr
  ev_remote_addr :: "string option"
  ev_remote_host :: "string option"
  ev_suspicious :: bool
  ev_raw_body_preview :: ustr

record payload =
  p_token :: string
  p_token_exists :: bool
  p_token_owner :: "string option"
  p_method :: string
  p_remote_addr :: "string option"
  p_remote_host :: "string option"
  p_suspicious :: bool
  p_body_preview :: ustr
  p_rate_ok :: bool

text \<open>The process state: the limiter's dictionary, the two tables, and the payloads
  handed to \<open>alert_async\<close> so far.\<close>

record app_state =
  rate_counters :: "string \<rightharpoonup> rat list"
  tokens :: "token_row list"
  events :: "event list"
  dispatched :: "payload list"

section \<open>The rate limiter\<close>

text \<open>The \<open>while\<close> loop of \<open>record_and_check_rate\<close>: the index of the first timestamp
  that is not older than \<open>window_start\<close>.\<close>

function scan_expired :: "rat list \<Rightarrow> rat \<Rightarrow> nat \<Rightarrow> nat" where
  "scan_expired arr window_start i =
     (if i < length arr \<and> arr ! i < window_start
      then scan_expired arr window_start (i + 1)
      else i)"
  by pat_completeness auto
termination
  by (relation "measure (\<lambda>(arr, window_start, i). length arr - i)") auto

definition record_and_check_rate ::
  "config \<Rightarrow> rat \<Rightarrow> string \<Rightarrow> (string \<rightharpoonup> rat list) \<Rightarrow> bool \<times> (string \<rightharpoonup> rat list)" where
  "record_and_check_rate cfg t token rc =
     (let arr = (case rc token of None \<Rightarrow> [] | Some a \<Rightarrow> a);
          window_start = t - of_int (RATE_LIMIT_WINDOW cfg);
          i = scan_expired arr window_start 0;
          arr1 = (if i \<noteq> 0 then drop i arr else arr);
          arr2 = arr1 @ [t]
      in (int (length arr2) \<le> RATE_LIMIT_MAX cfg, rc(token \<mapsto> arr2)))"

text \<open>A run of calls on one key, at the given times: the answers and the final dictionary.\<close>

fun rate_calls ::
  "config \<Rightarrow> string \<Rightarrow> rat list \<Rightarrow> (string \<rightharpoonup> rat list) \<Rightarrow> bool list \<times> (string \<rightharpoonup> rat list)" where
  "rate_calls cfg token [] rc = ([], rc)"
| "rate_calls cfg token (t # ts) rc =
     (case record_and_check_rate cfg t token rc of
        (ok, rc1) \<Rightarrow> (case rate_calls cfg token ts rc1 of (oks, rc2) \<Rightarrow> (ok # oks, rc2)))"

section \<open>Best-effort steps\<close>

text \<open>\<open>try: body except Exception: return dflt\<close>.\<close>

definition try_except :: "exn + 'a \<Rightarrow> 'a \<Rightarrow> exn + 'a" where
  "try_except body dflt = (case body of Inl e \<Rightarrow> Inr dflt | Inr v \<Rightarrow> Inr v)"

text \<open>One statement after another: the first exception ends the block.\<close>

definition and_then :: "exn + 'a \<Rightarrow> ('a \<Rightarrow> exn + 'b) \<Rightarrow> exn + 'b" where
  "and_then m f = (case m of Inl e \<Rightarrow> Inl e | Inr v \<Rightarrow> f v)"

definition enrich_remote_host ::
  "(string \<Rightarrow> exn + string) \<Rightarrow> string option \<Rightarrow> exn + string option" where
  "enrich_remote_host lookup ip =
     (if \<not> truthy ip then Inr None
      else (case ip of
              None \<Rightarrow> Inr None
            | Some a \<Rightarrow> try_except (and_then (lookup a) (\<lambda>h. Inr (Some h))) None))"

text \<open>What the network answers to the alert sinks: the status code of the POST, and
  the outcome of each SMTP step (\<open>Inl\<close> when the step raises).\<close>

record net =
  requests_post :: "string \<Rightarrow> payload \<Rightarrow> exn + int"
  build_message :: "string \<Rightarrow> exn + unit"
  smtp_connect :: "string \<Rightarrow> exn + unit"
  smtp_login :: "string \<Rightarrow> string \<Rightarrow> exn + unit"
  smtp_send_message :: "exn + unit"
  smtp_quit :: "exn + unit"

definition send_webhook :: "config \<Rightarrow> net \<Rightarrow> payload \<Rightarrow> exn + bool" where
  "send_webhook cfg nw p =
     (if \<not> truthy (ALERT_WEBHOOK cfg) then Inr False
      else (case ALERT_WEBHOOK cfg of
              None \<Rightarrow> Inr False
            | Some url \<Rightarrow>
                try_except
                  (and_then (requests_post nw url p)
                     (\<lambda>status_code. Inr (status_code \<ge> 200 \<and> status_code < 300)))
                  False))"

definition send_email :: "config \<Rightarrow> net \<Rightarrow> string option \<Rightarrow> exn + bool" where
  "send_email cfg nw to_addr =
     (if \<not> truthy (SMTP_HOST cfg) \<or> \<not> truthy to_addr then Inr False
      else (case (SMTP_HOST cfg, to_addr) of
              (Some h, Some a) \<Rightarrow>
                try_except
                  (and_then (build_message nw a) (\<lambda>_.
                   and_then (smtp_connect nw h) (\<lambda>_.
                   and_then (if truthy (SMTP_USER cfg) \<and> truthy (SMTP_PASS cfg)
                             then (case (SMTP_USER cfg, SMTP_PASS cfg) of
                                     (Some u, Some pw) \<Rightarrow> smtp_login nw u pw
                                   | _ \<Rightarrow> Inr ())
                             else Inr ()) (\<lambda>_.
                   and_then (smtp_send_message nw) (\<lambda>_.
                   and_then (smtp_quit nw) (\<lambda>_. Inr True))))))
                  False
            | _ \<Rightarrow> Inr False))"

text \<open>
  The body of the background thread. Each of the two attempts sits in its own
  \<open>try\<close>/\<open>except Exception: pass\<close>; the result records what each attempt returned:
  \<open>None\<close> for the e-mail when \<open>ALERT_EMAIL\<close> is not set (no attempt), and \<open>None\<close>
  for an attempt that raised.
\<close>

record attempts =
  webhook_result :: "bool option"
  email_attempted :: bool
  email_result :: "bool option"

definition worker :: "config \<Rightarrow> net \<Rightarrow> payload \<Rightarrow> exn + attempts" where
  "worker cfg nw p =
     and_then (try_except (and_then (send_webhook cfg nw p) (\<lambda>b. Inr (Some b))) None) (\<lambda>w.
     and_then (try_except
                 (if truthy (ALERT_EMAIL cfg)
                  then and_then (send_email cfg nw (ALERT_EMAIL cfg)) (\<lambda>b. Inr (Some b))
                  else Inr None) None) (\<lambda>m.
     Inr \<lparr>webhook_result = w, email_attempted = truthy (ALERT_EMAIL cfg), email_result = m\<rparr>))"

section \<open>The handler of \<open>/c/<token>\<close>\<close>

text \<open>\<open>Token.query.filter_by(token=token).first()\<close>.\<close>

definition find_token :: "token_row list \<Rightarrow> string \<Rightarrow> token_row option" where
  "find_token rows token = find (\<lambda>r. tok_token r = token) rows"

text \<open>Lines 231 to 235: at most 4096 bytes, decoded with replacement; any exception
  gives the empty preview.\<close>

definition capture_body :: "request \<Rightarrow> ustr" where
  "capture_body req =
     (case get_data req of
        Inl e \<Rightarrow> []
      | Inr d \<Rightarrow> (let body = take 4096 d
                  in if body \<noteq> [] then decode_utf8_replace body else []))"

text \<open>Lines 236 to 241: the first entry of \<open>X-Forwarded-For\<close>, else the peer.\<close>

definition derive_remote_addr :: "request \<Rightarrow> string option" where
  "derive_remote_addr req =
     (let remote_addr =
            (case x_forwarded_for req of
               None \<Rightarrow> None
             | Some xff \<Rightarrow>
                 if xff \<noteq> [] then Some (strip (hd (split_on CHR '','' xff))) else None)
      in if \<not> truthy remote_addr then peer_addr req else remote_addr)"

text \<open>Lines 242 to 245: the check of the derived address.\<close>

definition remote_suspicious :: "string option \<Rightarrow> bool" where
  "remote_suspicious remote_addr =
     (case remote_addr of
        None \<Rightarrow> False
      | Some a \<Rightarrow> a \<noteq> [] \<and> (is_private_ip_str a \<or> a \<in> METADATA_IPS))"

text \<open>Lines 246 to 256: the check of the \<open>Host\<close> header, without its port.\<close>

definition host_suspicious :: "request \<Rightarrow> bool" where
  "host_suspicious req =
     (let host_hdr = (case host_header req of None \<Rightarrow> [] | Some h \<Rightarrow> h);
          host_part = (if host_hdr \<noteq> [] then hd (split_on CHR '':'' host_hdr) else [])
      in host_part \<noteq> [] \<and> is_private_ip_str host_part)"

text \<open>Lines 257 to 275: the \<open>Event\<close> object, given the limiter's answer and the host
  name found.\<close>

definition make_event :: "string \<Rightarrow> request \<Rightarrow> bool \<Rightarrow> string option \<Rightarrow> event" where
  "make_event token req ok_rate remote_host =
     \<lparr>ev_token = token,
      ev_method = req_method req,
      ev_body_preview = take 2000 (capture_body req),
      ev_remote_addr = derive_remote_addr req,
      ev_remote_host = remote_host,
      ev_suspicious =
        ((remote_suspicious (derive_remote_addr req) \<or> host_suspicious req) \<or> \<not> ok_rate),
      ev_raw_body_preview = capture_body req\<rparr>"

text \<open>Lines 278 to 291: the alert payload.\<close>

definition make_payload :: "string \<Rightarrow> token_row option \<Rightarrow> event \<Rightarrow> bool \<Rightarrow> payload" where
  "make_payload token t ev ok_rate =
     \<lparr>p_token = token,
      p_token_exists = (t \<noteq> None),
      p_token_owner = (case t of None \<Rightarrow> None | Some row \<Rightarrow> tok_owner row),
      p_method = ev_method ev,
      p_remote_addr = ev_remote_addr ev,
      p_remote_host = ev_remote_host ev,
      p_suspicious = ev_suspicious ev,
      p_body_preview = ev_body_preview ev,
      p_rate_ok = ok_rate\<rparr>"

text \<open>
  The view function. It returns \<open>('OK', 200)\<close>, or an exception leaves it. The
  limiter's dictionary is updated before anything can fail; a failed commit leaves the
  tables as they were.
\<close>

definition canary ::
  "config \<Rightarrow> env \<Rightarrow> string \<Rightarrow> request \<Rightarrow> app_state \<Rightarrow> (exn + string \<times> nat) \<times> app_state" where
  "canary cfg e token req st =
     (case record_and_check_rate cfg (now e) token (rate_counters st) of
        (ok_rate, rc) \<Rightarrow>
          (let st1 = st\<lparr>rate_counters := rc\<rparr>;
               t = find_token (tokens st) token;
               remote_addr = derive_remote_addr req
           in (case (if truthy remote_addr
                     then enrich_remote_host (gethostbyaddr e) remote_addr
                     else Inr None) of
                 Inl x \<Rightarrow> (Inl x, st1)
               | Inr remote_host \<Rightarrow>
                   (let ev = make_event token req ok_rate remote_host
                    in (case commit e of
                          Some x \<Rightarrow> (Inl x, st1)
                        | None \<Rightarrow>
                            (Inr (''OK'', 200),
                             st1\<lparr>events := events st1 @ [ev],
                                 dispatched := dispatched st1 @ [make_payload token t ev ok_rate]\<rparr>))))))"

text \<open>The route: the seven methods of the decorator reach the view, any other method
  is answered 405 by the framework; an exception leaving the view is answered 500.\<close>

datatype response = Response string nat | MethodNotAllowed | InternalServerError

definition CANARY_METHODS :: "string list" where
  "CANARY_METHODS = [''GET'', ''POST'', ''PUT'', ''PATCH'', ''DELETE'', ''HEAD'', ''OPTIONS'']"

definition route_canary ::
  "config \<Rightarrow> env \<Rightarrow> string \<Rightarrow> request \<Rightarrow> app_state \<Rightarrow> response \<times> app_state" where
  "route_canary cfg e token req st =
     (if req_method req \<notin> set CANARY_METHODS then (MethodNotAllowed, st)
      else (case canary cfg e token req st of
              (Inl x, st1) \<Rightarrow> (InternalServerError, st1)
            | (Inr (body, status), st1) \<Rightarrow> (Response body status, st1)))"

text \<open>A series of requests to the route, each with its own answers from the world.\<close>

fun serve ::
  "config \<Rightarrow> string \<Rightarrow> (env \<times> request) list \<Rightarrow> app_state \<Rightarrow> response list \<times> app_state" where
  "serve cfg token [] st = ([], st)"
| "serve cfg token ((e, req) # rest) st =
     (case route_canary cfg e token req st of
        (r, st1) \<Rightarrow> (case serve cfg token rest st1 of (rs, st2) \<Rightarrow> (r # rs, st2)))"

section \<open>Notions of the specification\<close>

text \<open>The integer of the address \<open>a.b.c.d\<close>.\<close>

definition ipv4_int :: "nat \<Rightarrow> nat \<Rightarrow> nat \<Rightarrow> nat \<Rightarrow> nat" where
  "ipv4_int a b c d = ((a * 256 + b) * 256 + c) * 256 + d"

text \<open>Membership in the block \<open>base/prefixlen\<close>, read as a range of integers.\<close>

definition in_block :: "nat \<Rightarrow> nat \<Rightarrow> nat \<Rightarrow> bool" where
  "in_block base prefixlen ip = (base \<le> ip \<and> ip < base + 2 ^ (32 - prefixlen))"

text \<open>The five private and link-local blocks that the specification lists.\<close>

definition listed_private :: "nat \<Rightarrow> bool" where
  "listed_private ip =
     (in_block (ipv4_int 10 0 0 0) 8 ip \<or> in_block (ipv4_int 172 16 0 0) 12 ip
      \<or> in_block (ipv4_int 192 168 0 0) 16 ip \<or> in_block (ipv4_int 127 0 0 0) 8 ip
      \<or> in_block (ipv4_int 169 254 0 0) 16 ip)"

text \<open>The dotted-decimal text of an address, as \<open>str(IPv4Address(...))\<close> prints it.\<close>

definition digit_char :: "nat \<Rightarrow> char" where
  "digit_char d = char_of (48 + d)"

definition octet_str :: "nat \<Rightarrow> string" where
  "octet_str n =
     (if n < 10 then [digit_char n]
      else if n < 100 then [digit_char (n div 10), digit_char (n mod 10)]
      else [digit_char (n div 100), digit_char (n div 10 mod 10), digit_char (n mod 10)])"

definition dotted :: "nat \<Rightarrow> nat \<Rightarrow> nat \<Rightarrow> nat \<Rightarrow> string" where
  "dotted a b c d =
     octet_str a @ CHR ''.'' # octet_str b @ CHR ''.'' # octet_str c @ CHR ''.'' # octet_str d"

text \<open>The first comma-separated entry of a header value.\<close>

definition first_entry :: "string \<Rightarrow> string" where
  "first_entry xff = takeWhile (\<lambda>c. c \<noteq> CHR '','') xff"

text \<open>A token is resolved, in the specification's words, when a row for it exists, is
  not expired at the time of the hit, and is active.\<close>

definition token_resolved :: "rat \<Rightarrow> token_row list \<Rightarrow> string \<Rightarrow> bool" where
  "token_resolved t rows token =
     list_ex (\<lambda>r. tok_token r = token \<and> tok_active r
                   \<and> (case tok_expires_at r of None \<Rightarrow> True | Some x \<Rightarrow> t < x)) rows"

section \<open>Derived notions\<close>

text \<open>The sequence kept for a key: \<open>rate_counters.setdefault(token, [])\<close>.\<close>

definition stored :: "(string \<rightharpoonup> rat list) \<Rightarrow> string \<Rightarrow> rat list" where
  "stored rc token = (case rc token of None \<Rightarrow> [] | Some a \<Rightarrow> a)"

text \<open>What one call leaves for a key: the sequence without its longest prefix of
  timestamps older than the start of the window, and the time of the call at the end.\<close>

definition pruned :: "config \<Rightarrow> rat \<Rightarrow> rat list \<Rightarrow> rat list" where
  "pruned cfg t arr = dropWhile (\<lambda>x. x < t - of_int (RATE_LIMIT_WINDOW cfg)) arr @ [t]"

text \<open>The host name that ends up in the Event: the answer of the reverse lookup for a
  non-empty derived address, nothing when there is no address or the lookup fails.\<close>

definition looked_up_host :: "env \<Rightarrow> request \<Rightarrow> string option" where
  "looked_up_host e req =
     (case derive_remote_addr req of
        None \<Rightarrow> None
      | Some a \<Rightarrow> if a = [] then None
                  else (case gethostbyaddr e a of Inl x \<Rightarrow> None | Inr h \<Rightarrow> Some h))"

text \<open>The Event that one request produces in a given state.\<close>

definition event_of :: "config \<Rightarrow> env \<Rightarrow> string \<Rightarrow> request \<Rightarrow> app_state \<Rightarrow> event" where
  "event_of cfg e token req st =
     make_event token req
       (fst (record_and_check_rate cfg (now e) token (rate_counters st)))
       (looked_up_host e req)"

text \<open>Every step of the \<open>try\<close> block of \<open>send_email\<close> goes through; the login is a
  step only when both the user and the password are set.\<close>

definition smtp_steps_ok :: "config \<Rightarrow> net \<Rightarrow> string \<Rightarrow> string \<Rightarrow> bool" where
  "smtp_steps_ok cfg nw h a =
     (build_message nw a = Inr () \<and> smtp_connect nw h = Inr ()
      \<and> (case (SMTP_USER cfg, SMTP_PASS cfg) of
            (Some u, Some pw) \<Rightarrow> u \<noteq> [] \<and> pw \<noteq> [] \<longrightarrow> smtp_login nw u pw = Inr ()
          | _ \<Rightarrow> True)
      \<and> smtp_send_message nw = Inr () \<and> smtp_quit nw = Inr ())"

section \<open>Example inputs\<close>

text \<open>The default limits, with no alert sink configured; and the same with a webhook,
  a recipient and an SMTP host.\<close>

definition example_config :: config where
  "example_config =
     \<lparr>RATE_LIMIT_MAX = 20, RATE_LIMIT_WINDOW = 60, ALERT_WEBHOOK = None, ALERT_EMAIL = None,
      SMTP_HOST = None, SMTP_USER = None, SMTP_PASS = None\<rparr>"

definition alerting_config :: config where
  "alerting_config =
     example_config\<lparr>ALERT_WEBHOOK := Some ''https://hooks.example.com/x'',
                    ALERT_EMAIL := Some ''ops@example.com'',
                    SMTP_HOST := Some ''smtp.example.com''\<rparr>"

text \<open>A world at time 0 in which the commit succeeds and the reverse lookup fails; a
  network in which the POST and the SMTP connection fail.\<close>

definition example_env :: env where
  "example_env = \<lparr>now = 0, gethostbyaddr = (\<lambda>a. Inl OSError), commit = None\<rparr>"

definition failing_net :: net where
  "failing_net =
     \<lparr>requests_post = (\<lambda>url p. Inl RequestException),
      build_message = (\<lambda>a. Inr ()),
      smtp_connect = (\<lambda>h. Inl OSError),
      smtp_login = (\<lambda>u pw. Inr ()),
      smtp_send_message = Inr (),
      smtp_quit = Inr ()\<rparr>"

text \<open>An empty process state, and one whose token table holds a deactivated token and
  an expired one.\<close>

definition empty_state :: app_state where
  "empty_state = \<lparr>rate_counters = Map.empty, tokens = [], events = [], dispatched = []\<rparr>"

definition retired_state :: app_state where
  "retired_state =
     empty_state\<lparr>tokens :=
       [\<lparr>tok_token = ''tok'', tok_owner = Some ''alice'', tok_expires_at = None, tok_active = False\<rparr>,
        \<lparr>tok_token = ''old'', tok_owner = Some ''bob'', tok_expires_at = Some (-1), tok_active = True\<rparr>]\<rparr>"

text \<open>A request from a private peer, with no forwarding header and an empty body; the
  same with a method that the route does not list.\<close>

definition example_request :: request where
  "example_request =
     \<lparr>req_method = ''GET'', x_forwarded_for = None, host_header = Some ''canary.example.com'',
      peer_addr = Some ''10.1.2.3'', get_data = Inr []\<rparr>"

definition trace_request :: request where
  "trace_request = example_request\<lparr>req_method := ''TRACE''\<rparr>"

text \<open>The request of the specification's example: a forwarding header with two entries
  and a public transport peer.\<close>

definition forwarded_request :: request where
  "forwarded_request =
     \<lparr>req_method = ''GET'', x_forwarded_for = Some ''203.0.113.5, 10.0.0.1'',
      host_header = Some ''canary.example.com'', peer_addr = Some ''192.0.2.9'',
      get_data = Inr []\<rparr>"

text \<open>A request from a public peer whose \<open>Host\<close> header is a metadata address.\<close>

definition metadata_host_request :: request where
  "metadata_host_request =
     \<lparr>req_method = ''GET'', x_forwarded_for = None, host_header = Some ''100.100.100.200'',
      peer_addr = Some ''8.8.8.8'', get_data = Inr []\<rparr>"

text \<open>A body of 10000 bytes.\<close>

definition big_body :: "byte list" where
  "big_body = replicate 10000 65"

text \<open>Twenty-one call times, the first twenty within 19 seconds and the last at the end
  of the window that starts with the first.\<close>

definition example_times :: "rat list" where
  "example_times = [0, 1, 2, 3, 4, 5, 6, 7, 8, 9, 10, 11, 12, 13, 14, 15, 16, 17, 18, 19, 60]"

text \<open>Twenty-five requests to one token, 40 milliseconds apart.\<close>

definition burst_requests :: "(env \<times> request) list" where
  "burst_requests =
     map (\<lambda>k. (example_env\<lparr>now := of_nat k / 25\<rparr>, forwarded_request)) [0 ..< 25]"

text \<open>An alert payload.\<close>

definition example_payload :: payload where
  "example_payload =
     make_payload ''tok'' None (make_event ''tok'' example_request True None) True"

section \<open>Properties of the address classifier\<close>

declare hex_str.simps [simp del] scan_expired.simps [simp del]

subsection \<open>The netmask test is the numeric range\<close>

lemma and_prefix_mask:
  assumes "ip < 2 ^ 32" "p \<le> 32"
  shows "ip AND ip_int_from_prefix p = push_bit (32 - p) (drop_bit (32 - p) ip)"
proof (rule bit_eqI)
  fix n
  have m: "(2::nat) ^ 32 - 1 = mask 32" by (simp add: mask_eq_exp_minus_1)
  have hi: "bit ip n \<Longrightarrow> n < 32"
    using assms(1) by (metis bit_take_bit_iff take_bit_nat_eq_self)
  show "bit (ip AND ip_int_from_prefix p) n = bit (push_bit (32 - p) (drop_bit (32 - p) ip)) n"
    unfolding ip_int_from_prefix_def m using hi assms(2)
    by (auto simp add: bit_simps drop_bit_mask_eq)
qed

lemma block_iff:
  assumes "ip < 2 ^ 32" "p \<le> 32" "2 ^ (32 - p) dvd base"
  shows "(ip AND ip_int_from_prefix p = base) = in_block base p ip"
proof -
  obtain k where k: "base = 2 ^ (32 - p) * k" using assms(3) by (auto simp: dvd_def)
  have "ip AND ip_int_from_prefix p = (ip div 2 ^ (32 - p)) * 2 ^ (32 - p)"
    by (simp add: and_prefix_mask[OF assms(1,2)] push_bit_eq_mult drop_bit_eq_div)
  moreover have "((ip div 2 ^ (32 - p)) * 2 ^ (32 - p) = base) = in_block base p ip"
  proof -
    have pos: "(0::nat) < 2 ^ (32 - p)" by simp
    have "(ip div 2 ^ (32 - p) = k) = (k * 2 ^ (32 - p) \<le> ip \<and> ip < (k + 1) * 2 ^ (32 - p))"
    proof
      assume "ip div 2 ^ (32 - p) = k"
      then show "k * 2 ^ (32 - p) \<le> ip \<and> ip < (k + 1) * 2 ^ (32 - p)"
        using dividend_less_div_times[OF pos, of ip] div_times_less_eq_dividend[of ip "2 ^ (32 - p)"]
        by (auto simp: algebra_simps)
    next
      assume "k * 2 ^ (32 - p) \<le> ip \<and> ip < (k + 1) * 2 ^ (32 - p)"
      then show "ip div 2 ^ (32 - p) = k"
        by (intro div_nat_eqI) (auto simp: algebra_simps)
    qed
    then show ?thesis unfolding in_block_def k
      by (auto simp: algebra_simps)
  qed
  ultimately show ?thesis by simp
qed

lemma parse_octet_le: "parse_octet s = Inr v \<Longrightarrow> v \<le> 255"
  by (auto simp: parse_octet_def Let_def split: if_splits)

lemma from_octets4:
  assumes "from_octets 0 [o1, o2, o3, o4] = Inr ip"
  shows "\<exists>a b c d. parse_octet o1 = Inr a \<and> parse_octet o2 = Inr b \<and> parse_octet o3 = Inr c
           \<and> parse_octet o4 = Inr d \<and> ip = ipv4_int a b c d"
  using assms by (auto simp: ipv4_int_def algebra_simps split: sum.splits)

lemma ipv4_address_octets:
  assumes "ipv4_address s = Inr ip"
  shows "\<exists>o1 o2 o3 o4 a b c d. split_on CHR ''.'' s = [o1, o2, o3, o4]
           \<and> parse_octet o1 = Inr a \<and> parse_octet o2 = Inr b \<and> parse_octet o3 = Inr c
           \<and> parse_octet o4 = Inr d \<and> ip = ipv4_int a b c d"
proof -
  from assms have len: "length (split_on CHR ''.'' s) = 4"
    and fo: "from_octets 0 (split_on CHR ''.'' s) = Inr ip"
    by (auto simp: ipv4_address_def ipv4_int_from_string_def Let_def split: if_splits)
  from len obtain o1 o2 o3 o4 where sp: "split_on CHR ''.'' s = [o1, o2, o3, o4]"
    by (auto simp: numeral_eq_Suc length_Suc_conv)
  with fo from_octets4 show ?thesis by metis
qed

lemma ipv4_address_bound: "ipv4_address s = Inr ip \<Longrightarrow> ip < 2 ^ 32"
proof -
  assume "ipv4_address s = Inr ip"
  then obtain o1 o2 o3 o4 a b c d where
    "parse_octet o1 = Inr a" "parse_octet o2 = Inr b" "parse_octet o3 = Inr c"
    "parse_octet o4 = Inr d" "ip = ipv4_int a b c d"
    using ipv4_address_octets by blast
  then show ?thesis
    using parse_octet_le[of o1 a] parse_octet_le[of o2 b] parse_octet_le[of o3 c] parse_octet_le[of o4 d]
    by (simp add: ipv4_int_def)
qed

lemma ip_address_v4_iff: "(ip_address s = Inr (IPv4Address ip)) = (ipv4_address s = Inr ip)"
  by (auto simp: ip_address_def split: sum.splits)

lemma ip_address_v6_iff:
  "(ip_address s = Inr (IPv6Address ip sc)) =
     ((\<exists>e. ipv4_address s = Inl e) \<and> ipv6_address s = Inr (ip, sc))"
  by (auto simp: ip_address_def split: sum.splits)

lemma in_ranges_listed:
  assumes "ip < 2 ^ 32"
  shows "in_ranges (IPv4Address ip) PRIV_RANGES = listed_private ip"
proof -
  have nc: "\<And>a b c d p. p \<le> 32 \<Longrightarrow> 2 ^ (32 - p) dvd ipv4_int a b c d \<Longrightarrow>
      net_contains (ipv4_network a b c d p) (IPv4Address ip) = in_block (ipv4_int a b c d) p ip"
    using block_iff[OF assms] by (simp add: net_contains_def ipv4_network_def ipv4_int_def)
  have "net_contains (ipv4_network 10 0 0 0 8) (IPv4Address ip) = in_block (ipv4_int 10 0 0 0) 8 ip"
    by (rule nc) (simp_all add: ipv4_int_def)
  moreover have "net_contains (ipv4_network 172 16 0 0 12) (IPv4Address ip) = in_block (ipv4_int 172 16 0 0) 12 ip"
    by (rule nc) (simp_all add: ipv4_int_def)
  moreover have "net_contains (ipv4_network 192 168 0 0 16) (IPv4Address ip) = in_block (ipv4_int 192 168 0 0) 16 ip"
    by (rule nc) (simp_all add: ipv4_int_def)
  moreover have "net_contains (ipv4_network 127 0 0 0 8) (IPv4Address ip) = in_block (ipv4_int 127 0 0 0) 8 ip"
    by (rule nc) (simp_all add: ipv4_int_def)
  moreover have "net_contains (ipv4_network 169 254 0 0 16) (IPv4Address ip) = in_block (ipv4_int 169 254 0 0) 16 ip"
    by (rule nc) (simp_all add: ipv4_int_def)
  ultimately show ?thesis
    by (simp add: PRIV_RANGES_def listed_private_def)
qed

lemma is_private_v4:
  "ip_address s = Inr (IPv4Address ip) \<Longrightarrow> is_private_ip_str s = listed_private ip"
proof -
  assume a: "ip_address s = Inr (IPv4Address ip)"
  then have "ipv4_address s = Inr ip" by (simp add: ip_address_v4_iff)
  then have "ip < 2 ^ 32" by (rule ipv4_address_bound)
  then show ?thesis by (simp add: is_private_ip_str_def a in_ranges_listed)
qed

lemma in_ranges_v6: "in_ranges (IPv6Address ip sc) PRIV_RANGES = False"
  by (simp add: PRIV_RANGES_def net_contains_def ipv4_network_def)

lemma is_private_v6:
  "ip_address s = Inr (IPv6Address ip sc) \<Longrightarrow> is_private_ip_str s = False"
  by (simp add: is_private_ip_str_def in_ranges_v6)

lemma of_char_digit: "d < 10 \<Longrightarrow> (of_char (digit_char d) :: nat) = 48 + d"
  by (simp add: digit_char_def)

lemma digit_char_zero: "d < 10 \<Longrightarrow> (digit_char d = CHR ''0'') = (d = 0)"
  using of_char_eq_iff[of "digit_char d" "CHR ''0''", where ?'a = nat]
  by (simp add: of_char_digit del: of_char_eq_iff)

lemma is_ascii_digit_digit_char: "d < 10 \<Longrightarrow> is_ascii_digit (digit_char d)"
  by (simp add: is_ascii_digit_def of_char_digit)

lemma octet_digits:
  assumes "(n::nat) < 256"
  shows "n div 100 < 10" "n div 10 mod 10 < 10" "n mod 10 < 10" "n < 100 \<Longrightarrow> n div 10 < 10"
  using assms by auto

lemma octet_str_digits:
  assumes "n < 256"
  shows "list_all is_ascii_digit (octet_str n)"
  by (simp add: octet_str_def is_ascii_digit_digit_char octet_digits[OF assms])

lemma octet_str_chars:
  assumes "n < 256"
  shows "CHR ''.'' \<notin> set (octet_str n)" "CHR ''/'' \<notin> set (octet_str n)"
proof -
  have "\<forall>c \<in> set (octet_str n). is_ascii_digit c"
    using octet_str_digits[OF assms] by (simp add: list_all_iff)
  then show "CHR ''.'' \<notin> set (octet_str n)" "CHR ''/'' \<notin> set (octet_str n)"
    by (auto simp: is_ascii_digit_def)
qed

lemma parse_octet_1: "d < 10 \<Longrightarrow> parse_octet [digit_char d] = Inr d"
  by (auto simp add: parse_octet_def int_base10_def of_char_digit digit_char_zero
      is_ascii_digit_digit_char)

lemma parse_octet_2:
  "d1 < 10 \<Longrightarrow> d1 \<noteq> 0 \<Longrightarrow> d2 < 10 \<Longrightarrow> parse_octet [digit_char d1, digit_char d2] = Inr (10 * d1 + d2)"
  by (simp add: parse_octet_def int_base10_def of_char_digit digit_char_zero
      is_ascii_digit_digit_char)

lemma parse_octet_3:
  "d1 < 10 \<Longrightarrow> d1 \<noteq> 0 \<Longrightarrow> d2 < 10 \<Longrightarrow> d3 < 10 \<Longrightarrow> 10 * (10 * d1 + d2) + d3 \<le> 255 \<Longrightarrow>
   parse_octet [digit_char d1, digit_char d2, digit_char d3] = Inr (10 * (10 * d1 + d2) + d3)"
  by (simp add: parse_octet_def int_base10_def of_char_digit digit_char_zero
      is_ascii_digit_digit_char)

lemma parse_octet_octet_str:
  assumes "n < 256"
  shows "parse_octet (octet_str n) = Inr n"
proof -
  consider "n < 10" | "10 \<le> n" "n < 100" | "100 \<le> n" by linarith
  then show ?thesis
  proof cases
    case 1
    then show ?thesis by (simp add: octet_str_def parse_octet_1)
  next
    case 2
    then have d: "n div 10 < 10" "n div 10 \<noteq> 0" "n mod 10 < 10" by auto
    have "parse_octet [digit_char (n div 10), digit_char (n mod 10)] = Inr (10 * (n div 10) + n mod 10)"
      by (rule parse_octet_2[OF d])
    with 2 show ?thesis by (simp add: octet_str_def)
  next
    case 3
    then have d: "n div 100 < 10" "n div 100 \<noteq> 0" "n div 10 mod 10 < 10" "n mod 10 < 10"
      using assms by auto
    have "n div 100 = n div 10 div 10" by (simp add: div_mult2_eq[symmetric])
    then have e: "10 * (10 * (n div 100) + n div 10 mod 10) + n mod 10 = n" by simp
    have "parse_octet [digit_char (n div 100), digit_char (n div 10 mod 10), digit_char (n mod 10)]
          = Inr (10 * (10 * (n div 100) + n div 10 mod 10) + n mod 10)"
      using assms by (intro parse_octet_3 d) (simp only: e)
    with 3 e show ?thesis by (simp add: octet_str_def)
  qed
qed

lemma split_on_none: "sep \<notin> set xs \<Longrightarrow> split_on sep xs = [xs]"
  by (induction xs) auto

lemma split_on_append:
  "sep \<notin> set xs \<Longrightarrow> split_on sep (xs @ sep # ys) = xs # split_on sep ys"
  by (induction xs) auto

lemma split_on_dotted:
  assumes "a < 256" "b < 256" "c < 256" "d < 256"
  shows "split_on CHR ''.'' (dotted a b c d) = [octet_str a, octet_str b, octet_str c, octet_str d]"
  unfolding dotted_def
  by (simp add: split_on_append split_on_none octet_str_chars assms)

lemma octet_str_nonempty: "octet_str n \<noteq> []"
  by (simp add: octet_str_def)

lemma ipv4_address_dotted:
  assumes "a < 256" "b < 256" "c < 256" "d < 256"
  shows "ipv4_address (dotted a b c d) = Inr (ipv4_int a b c d)"
proof -
  have s: "CHR ''/'' \<notin> set (dotted a b c d)"
    using octet_str_chars(2) assms by (auto simp: dotted_def)
  have ne: "dotted a b c d \<noteq> []" by (simp add: dotted_def octet_str_nonempty)
  show ?thesis
    by (simp add: ipv4_address_def s ipv4_int_from_string_def ne split_on_dotted assms
        parse_octet_octet_str ipv4_int_def algebra_simps)
qed

lemmas v4_eval = ipv4_address_def ipv4_int_from_string_def parse_octet_def
  int_base10_def is_ascii_digit_def ipv4_int_def Let_def

lemmas v6_eval = ipv6_address_def split_scope_id_def partition_on_def ipv6_int_from_string_def
  expand_v4_suffix_def ipv6_hextets_def parse_hextet_def is_hex_digit_def hex_val_def

lemma hex_str_examples: "hex_str 2560 = ''a00''" "hex_str (Suc 0) = ''1''"
  by (simp_all add: hex_str.simps[of 2560] hex_str.simps[of 160] hex_str.simps[of 10]
      hex_str.simps[of "Suc 0"] hex_digit_def)

lemma metadata_parse:
  "ip_address ''169.254.169.254'' = Inr (IPv4Address (ipv4_int 169 254 169 254))"
  "ip_address ''169.254.170.2'' = Inr (IPv4Address (ipv4_int 169 254 170 2))"
  "ip_address ''100.100.100.200'' = Inr (IPv4Address (ipv4_int 100 100 100 200))"
  by (simp_all add: ip_address_def v4_eval)

lemma public_parse: "ip_address ''8.8.8.8'' = Inr (IPv4Address (ipv4_int 8 8 8 8))"
  by (simp add: ip_address_def v4_eval)

lemma ipv6_examples:
  "ip_address ''::1'' = Inr (IPv6Address 1 None)"
  "ip_address ''fe80::1'' = Inr (IPv6Address 338288524927261089654018896841347694593 None)"
  "ip_address ''::ffff:10.0.0.1'' = Inr (IPv6Address 281470849515521 None)"
  by (simp_all add: ip_address_def v4_eval v6_eval upt_rec hex_str_examples)

lemma metadata_parses: "s \<in> METADATA_IPS \<Longrightarrow> \<exists>ip. ip_address s = Inr (IPv4Address ip)"
  using metadata_parse by (auto simp: METADATA_IPS_def)

subsection \<open>Classification of the remote address\<close>

lemma ip_address_empty: "ip_address [] = Inl ValueError"
  by (simp add: ip_address_def v4_eval v6_eval)

lemma parsed_nonempty: "ip_address s = Inr ip \<Longrightarrow> s \<noteq> []"
  using ip_address_empty by auto

lemma remote_suspicious_v4:
  assumes "ip_address s = Inr (IPv4Address ip)"
  shows "remote_suspicious (Some s) = (listed_private ip \<or> s \<in> METADATA_IPS)"
  using assms parsed_nonempty[OF assms] by (simp add: remote_suspicious_def is_private_v4)

lemma remote_suspicious_unparsed:
  assumes "ip_address s = Inl e"
  shows "\<not> is_private_ip_str s" "\<not> remote_suspicious (Some s)"
proof -
  show p: "\<not> is_private_ip_str s" using assms by (simp add: is_private_ip_str_def)
  have "s \<notin> METADATA_IPS" using metadata_parses assms by fastforce
  with p show "\<not> remote_suspicious (Some s)" by (simp add: remote_suspicious_def)
qed

lemma ip_address_dotted:
  assumes "a < 256" "b < 256" "c < 256" "d < 256"
  shows "ip_address (dotted a b c d) = Inr (IPv4Address (ipv4_int a b c d))"
  by (simp add: ip_address_def ipv4_address_dotted[OF assms])

text \<open>
  C1. The classification of the derived remote address: an IPv4 address string is
  flagged exactly when its address lies in one of the five listed blocks or the string is
  one of the three metadata literals; in particular every address of the five blocks,
  written in dotted decimal, is flagged, and so is each metadata literal; \<open>8.8.8.8\<close> is
  not flagged; an input that \<open>ip_address\<close> rejects gives \<open>False\<close>, the rejection
  being caught inside \<open>is_private_ip_str\<close>. A flagged derived address makes the Event
  suspicious.
\<close>

theorem classifier_private_metadata_public:
  "(ip_address s = Inr (IPv4Address ip) \<longrightarrow>
      remote_suspicious (Some s) = (listed_private ip \<or> s \<in> METADATA_IPS))
   \<and> (m \<in> {''169.254.169.254'', ''169.254.170.2'', ''100.100.100.200''} \<longrightarrow>
        remote_suspicious (Some m))
   \<and> (a < 256 \<and> b < 256 \<and> c < 256 \<and> d < 256 \<and> listed_private (ipv4_int a b c d) \<longrightarrow>
        is_private_ip_str (dotted a b c d) \<and> remote_suspicious (Some (dotted a b c d)))
   \<and> \<not> remote_suspicious (Some ''8.8.8.8'')
   \<and> (ip_address u = Inl e \<longrightarrow> \<not> is_private_ip_str u \<and> \<not> remote_suspicious (Some u))
   \<and> (derive_remote_addr req = Some s \<and> remote_suspicious (Some s) \<longrightarrow>
        ev_suspicious (make_event token req ok_rate remote_host))"
proof (intro conjI impI)
  assume "ip_address s = Inr (IPv4Address ip)"
  then show "remote_suspicious (Some s) = (listed_private ip \<or> s \<in> METADATA_IPS)"
    by (rule remote_suspicious_v4)
next
  assume "m \<in> {''169.254.169.254'', ''169.254.170.2'', ''100.100.100.200''}"
  then show "remote_suspicious (Some m)"
    by (auto simp: remote_suspicious_def METADATA_IPS_def)
next
  assume h: "a < 256 \<and> b < 256 \<and> c < 256 \<and> d < 256 \<and> listed_private (ipv4_int a b c d)"
  then have p: "ip_address (dotted a b c d) = Inr (IPv4Address (ipv4_int a b c d))"
    by (simp add: ip_address_dotted)
  from h show "is_private_ip_str (dotted a b c d)" by (simp add: is_private_v4[OF p])
  from h show "remote_suspicious (Some (dotted a b c d))" by (simp add: remote_suspicious_v4[OF p])
next
  show "\<not> remote_suspicious (Some ''8.8.8.8'')"
    by (simp add: remote_suspicious_v4[OF public_parse] listed_private_def in_block_def
        ipv4_int_def METADATA_IPS_def)
next
  assume "ip_address u = Inl e"
  then show "\<not> is_private_ip_str u" "\<not> remote_suspicious (Some u)"
    by (rule remote_suspicious_unparsed)+
next
  assume "derive_remote_addr req = Some s \<and> remote_suspicious (Some s)"
  then show "ev_suspicious (make_event token req ok_rate remote_host)"
    by (simp add: make_event_def)
qed

theorem classifier_private_metadata_public_witness:
  "remote_suspicious (Some ''10.1.2.3'')
   \<and> remote_suspicious (Some ''100.100.100.200'')
   \<and> remote_suspicious (Some (dotted 172 31 255 255))
   \<and> \<not> remote_suspicious (Some ''10.1.2'')
   \<and> ev_suspicious (make_event ''t'' example_request True None)"
proof -
  have p: "ip_address ''10.1.2.3'' = Inr (IPv4Address (ipv4_int 10 1 2 3))"
    by (simp add: ip_address_def v4_eval)
  have q: "ip_address ''10.1.2'' = Inl ValueError"
    by (simp add: ip_address_def v4_eval v6_eval)
  have l: "listed_private (ipv4_int 10 1 2 3)" "listed_private (ipv4_int 172 31 255 255)"
    by (simp_all add: listed_private_def in_block_def ipv4_int_def)
  have r: "derive_remote_addr example_request = Some ''10.1.2.3''"
    by (simp add: derive_remote_addr_def example_request_def)
  show ?thesis
    using classifier_private_metadata_public[of "''10.1.2.3''" "ipv4_int 10 1 2 3"
        "''100.100.100.200''" 172 31 255 255 "''10.1.2''" ValueError example_request
        "''t''" True None] p q l r
    by simp
qed

subsection \<open>IPv6 addresses\<close>

text \<open>
  C10. The check is IPv4-only: every range has version 4 and every metadata literal is an
  IPv4 address, so a string that \<open>ip_address\<close> reads as an IPv6 address is never
  private and never flagged as a remote address; this covers the loopback \<open>::1\<close>, the
  link-local \<open>fe80::1\<close> and the IPv4-mapped \<open>::ffff:10.0.0.1\<close>.
\<close>

theorem ipv6_never_private:
  "(ip_address s = Inr (IPv6Address ip scope_id) \<longrightarrow>
      \<not> is_private_ip_str s \<and> \<not> remote_suspicious (Some s))
   \<and> ip_address ''::1'' = Inr (IPv6Address 1 None) \<and> \<not> is_private_ip_str ''::1''
   \<and> ip_address ''fe80::1'' = Inr (IPv6Address 338288524927261089654018896841347694593 None)
   \<and> \<not> is_private_ip_str ''fe80::1''
   \<and> ip_address ''::ffff:10.0.0.1'' = Inr (IPv6Address 281470849515521 None)
   \<and> \<not> is_private_ip_str ''::ffff:10.0.0.1''
   \<and> list_all (\<lambda>net. net_version net = 4) PRIV_RANGES
   \<and> (m \<in> METADATA_IPS \<longrightarrow> (\<exists>ip4. ip_address m = Inr (IPv4Address ip4)))"
proof -
  have g: "\<not> is_private_ip_str s \<and> \<not> remote_suspicious (Some s)"
    if a: "ip_address s = Inr (IPv6Address ip scope_id)" for s ip scope_id
  proof -
    have "s \<notin> METADATA_IPS" using metadata_parses a by fastforce
    then show ?thesis by (simp add: remote_suspicious_def is_private_v6[OF a])
  qed
  show ?thesis
    using g[of s ip scope_id] g[OF ipv6_examples(1)] g[OF ipv6_examples(2)] g[OF ipv6_examples(3)]
      metadata_parses[of m]
    by (simp add: ipv6_examples PRIV_RANGES_def ipv4_network_def)
qed

theorem ipv6_never_private_witness:
  "\<not> is_private_ip_str ''fe80::1'' \<and> \<not> remote_suspicious (Some ''fe80::1'')
   \<and> (\<exists>ip4. ip_address ''169.254.170.2'' = Inr (IPv4Address ip4))"
  using ipv6_never_private[of "''fe80::1''" 338288524927261089654018896841347694593 None
      "''169.254.170.2''"] ipv6_examples(2)
  by (simp add: METADATA_IPS_def)

section \<open>Properties of the rate limiter\<close>

subsection \<open>One call, and calls within one window\<close>

lemma scan_expired_takeWhile:
  "i \<le> length arr \<Longrightarrow>
   scan_expired arr ws i = i + length (takeWhile (\<lambda>x. x < ws) (drop i arr))"
proof (induction arr ws i rule: scan_expired.induct)
  case (1 arr ws i)
  show ?case
  proof (cases "i < length arr \<and> arr ! i < ws")
    case True
    then have d: "drop i arr = arr ! i # drop (Suc i) arr" by (simp add: Cons_nth_drop_Suc)
    from True 1 show ?thesis
      by (subst scan_expired.simps) (simp add: d)
  next
    case False
    show ?thesis
    proof (cases "i < length arr")
      case True
      then have d: "drop i arr = arr ! i # drop (Suc i) arr" by (simp add: Cons_nth_drop_Suc)
      from True False show ?thesis by (subst scan_expired.simps) (simp add: d)
    next
      case False
      then show ?thesis using 1(2) by (subst scan_expired.simps) simp
    qed
  qed
qed

lemma drop_scan_expired:
  "drop (scan_expired arr ws 0) arr = dropWhile (\<lambda>x. x < ws) arr"
  by (simp add: scan_expired_takeWhile dropWhile_eq_drop)

lemma record_and_check_rate_eq:
  "record_and_check_rate cfg t token rc =
     (int (length (pruned cfg t (stored rc token))) \<le> RATE_LIMIT_MAX cfg,
      rc(token \<mapsto> pruned cfg t (stored rc token)))"
proof -
  have "(if scan_expired arr ws 0 \<noteq> 0 then drop (scan_expired arr ws 0) arr else arr)
        = dropWhile (\<lambda>x. x < ws) arr" for arr ws
    using drop_scan_expired[of arr ws] by (cases "scan_expired arr ws 0 = 0") simp_all
  then show ?thesis
    by (simp add: record_and_check_rate_def Let_def pruned_def stored_def)
qed

lemma dropWhile_sorted_filter:
  "sorted arr \<Longrightarrow> dropWhile (\<lambda>x. x < ws) arr = filter (\<lambda>x. \<not> x < (ws::rat)) arr"
proof (induction arr)
  case Nil
  then show ?case by simp
next
  case (Cons x xs)
  show ?case
  proof (cases "x < ws")
    case True
    with Cons show ?thesis by simp
  next
    case False
    with Cons.prems have "\<forall>y \<in> set xs. \<not> y < ws" by auto
    then have "filter (\<lambda>x. \<not> x < ws) xs = xs" by (simp add: filter_id_conv)
    with False show ?thesis by simp
  qed
qed

lemma pruned_in_window:
  assumes "\<forall>x \<in> set arr. t - of_int (RATE_LIMIT_WINDOW cfg) \<le> x"
  shows "pruned cfg t arr = arr @ [t]"
proof -
  have "dropWhile (\<lambda>x. x < t - of_int (RATE_LIMIT_WINDOW cfg)) arr = arr"
    using assms by (cases arr) auto
  then show ?thesis by (simp add: pruned_def)
qed

lemma pruned_all_expired:
  assumes "\<forall>x \<in> set arr. x < t - of_int (RATE_LIMIT_WINDOW cfg)"
  shows "pruned cfg t arr = [t]"
  using assms by (simp add: pruned_def)

lemma rate_calls_in_window:
  assumes "\<forall>x \<in> set (stored rc token) \<union> set ts. a \<le> x \<and> x \<le> a + of_int (RATE_LIMIT_WINDOW cfg)"
  shows "rate_calls cfg token ts rc =
           (map (\<lambda>k. int (length (stored rc token) + k + 1) \<le> RATE_LIMIT_MAX cfg) [0 ..< length ts],
            if ts = [] then rc else rc(token \<mapsto> stored rc token @ ts))"
  using assms
proof (induction ts arbitrary: rc)
  case Nil
  then show ?case by simp
next
  case (Cons t ts)
  let ?arr = "stored rc token"
  let ?rc1 = "rc(token \<mapsto> ?arr @ [t])"
  have w: "\<forall>x \<in> set ?arr. t - of_int (RATE_LIMIT_WINDOW cfg) \<le> x"
  proof
    fix x assume "x \<in> set ?arr"
    then have "a \<le> x" using Cons.prems by auto
    moreover have "t \<le> a + of_int (RATE_LIMIT_WINDOW cfg)" using Cons.prems by auto
    ultimately show "t - of_int (RATE_LIMIT_WINDOW cfg) \<le> x" by linarith
  qed
  have step: "record_and_check_rate cfg t token rc =
      (int (length ?arr + 1) \<le> RATE_LIMIT_MAX cfg, ?rc1)"
    by (simp add: record_and_check_rate_eq pruned_in_window[OF w])
  have st: "stored ?rc1 token = ?arr @ [t]" by (simp add: stored_def)
  have "\<forall>x \<in> set (stored ?rc1 token) \<union> set ts. a \<le> x \<and> x \<le> a + of_int (RATE_LIMIT_WINDOW cfg)"
    using Cons.prems by (auto simp: st)
  from Cons.IH[OF this] have ih: "rate_calls cfg token ts ?rc1 =
      (map (\<lambda>k. int (length (?arr @ [t]) + k + 1) \<le> RATE_LIMIT_MAX cfg) [0 ..< length ts],
       if ts = [] then ?rc1 else ?rc1(token \<mapsto> (?arr @ [t]) @ ts))"
    unfolding st .
  have m: "map (\<lambda>k. int (length ?arr + k + 1) \<le> RATE_LIMIT_MAX cfg) [0 ..< length (t # ts)]
      = (int (length ?arr + 1) \<le> RATE_LIMIT_MAX cfg)
        # map (\<lambda>k. int (length (?arr @ [t]) + k + 1) \<le> RATE_LIMIT_MAX cfg) [0 ..< length ts]"
    by (simp add: upt_conv_Cons map_Suc_upt[symmetric] o_def del: upt_Suc)
  have "rate_calls cfg token (t # ts) rc =
      ((int (length ?arr + 1) \<le> RATE_LIMIT_MAX cfg) # fst (rate_calls cfg token ts ?rc1),
       snd (rate_calls cfg token ts ?rc1))"
    by (simp add: step split: prod.splits)
  also have "\<dots> = (map (\<lambda>k. int (length ?arr + k + 1) \<le> RATE_LIMIT_MAX cfg) [0 ..< length (t # ts)],
       rc(token \<mapsto> ?arr @ t # ts))"
    unfolding ih m by simp
  finally show ?case by (simp only: list.distinct if_False)
qed

lemma rate_calls_fresh_key:
  assumes "rc token = None" "\<forall>x \<in> set ts. a \<le> x \<and> x \<le> a + of_int (RATE_LIMIT_WINDOW cfg)"
  shows "fst (rate_calls cfg token ts rc) = map (\<lambda>k. int k + 1 \<le> RATE_LIMIT_MAX cfg) [0 ..< length ts]"
    and "ts \<noteq> [] \<Longrightarrow> snd (rate_calls cfg token ts rc) = rc(token \<mapsto> ts)"
proof -
  have s: "stored rc token = []" using assms(1) by (simp add: stored_def)
  have "\<forall>x \<in> set (stored rc token) \<union> set ts. a \<le> x \<and> x \<le> a + of_int (RATE_LIMIT_WINDOW cfg)"
    using assms(2) by (simp add: s)
  from rate_calls_in_window[OF this]
  show "fst (rate_calls cfg token ts rc) = map (\<lambda>k. int k + 1 \<le> RATE_LIMIT_MAX cfg) [0 ..< length ts]"
    and "ts \<noteq> [] \<Longrightarrow> snd (rate_calls cfg token ts rc) = rc(token \<mapsto> ts)"
    by (auto simp add: s add.commute)
qed

text \<open>
  C3. One call of the limiter on a key: with \<open>window_start = now - WINDOW\<close>, the stored
  sequence loses its longest prefix of timestamps strictly older than \<open>window_start\<close>,
  gains \<open>now\<close> at the end, and the answer is whether the new length is at most
  \<open>MAX\<close>. When the stored sequence is sorted (timestamps appended by a clock that does
  not go back, which the update preserves), the prefix removed is exactly the set of
  timestamps strictly older than \<open>window_start\<close>. With a window of 60 and a maximum of
  20, on a fresh key and for calls that all fall within one window, the call number
  \<open>k\<close> (from 0) is allowed exactly when \<open>k < 20\<close>: the first 20 are allowed, the
  21st is denied; a later call, made when every recorded timestamp is older than its
  window, is allowed again.
\<close>

theorem rate_limit_sliding_window:
  "record_and_check_rate cfg t token rc =
     (int (length (dropWhile (\<lambda>x. x < t - of_int (RATE_LIMIT_WINDOW cfg)) (stored rc token) @ [t]))
        \<le> RATE_LIMIT_MAX cfg,
      rc(token \<mapsto> dropWhile (\<lambda>x. x < t - of_int (RATE_LIMIT_WINDOW cfg)) (stored rc token) @ [t]))
   \<and> (sorted (stored rc token) \<longrightarrow>
        dropWhile (\<lambda>x. x < t - of_int (RATE_LIMIT_WINDOW cfg)) (stored rc token)
          = filter (\<lambda>x. \<not> x < t - of_int (RATE_LIMIT_WINDOW cfg)) (stored rc token))
   \<and> (sorted (stored rc token) \<and> (\<forall>x \<in> set (stored rc token). x \<le> t) \<longrightarrow>
        sorted (stored (snd (record_and_check_rate cfg t token rc)) token))
   \<and> (RATE_LIMIT_WINDOW cfg = 60 \<and> RATE_LIMIT_MAX cfg = 20 \<and> rc token = None
        \<and> (\<forall>x \<in> set ts. a \<le> x \<and> x \<le> a + 60) \<and> (\<forall>x \<in> set ts. x < t' - 60) \<longrightarrow>
        length (fst (rate_calls cfg token ts rc)) = length ts
        \<and> (\<forall>k < length ts. fst (rate_calls cfg token ts rc) ! k = (k < 20))
        \<and> fst (record_and_check_rate cfg t' token (snd (rate_calls cfg token ts rc))))"
proof (intro conjI impI)
  show "record_and_check_rate cfg t token rc =
     (int (length (dropWhile (\<lambda>x. x < t - of_int (RATE_LIMIT_WINDOW cfg)) (stored rc token) @ [t]))
        \<le> RATE_LIMIT_MAX cfg,
      rc(token \<mapsto> dropWhile (\<lambda>x. x < t - of_int (RATE_LIMIT_WINDOW cfg)) (stored rc token) @ [t]))"
    using record_and_check_rate_eq[of cfg t token rc] by (simp add: pruned_def)
next
  assume "sorted (stored rc token)"
  then show "dropWhile (\<lambda>x. x < t - of_int (RATE_LIMIT_WINDOW cfg)) (stored rc token)
          = filter (\<lambda>x. \<not> x < t - of_int (RATE_LIMIT_WINDOW cfg)) (stored rc token)"
    by (rule dropWhile_sorted_filter)
next
  assume h: "sorted (stored rc token) \<and> (\<forall>x \<in> set (stored rc token). x \<le> t)"
  let ?kept = "dropWhile (\<lambda>x. x < t - of_int (RATE_LIMIT_WINDOW cfg)) (stored rc token)"
  have "sorted ?kept" using h by (simp add: sorted_dropWhile)
  moreover have "\<forall>x \<in> set ?kept. x \<le> t" using h set_dropWhileD by fastforce
  ultimately have "sorted (?kept @ [t])" by (simp add: sorted_append)
  then show "sorted (stored (snd (record_and_check_rate cfg t token rc)) token)"
    by (simp add: record_and_check_rate_eq pruned_def stored_def)
next
  assume h: "RATE_LIMIT_WINDOW cfg = 60 \<and> RATE_LIMIT_MAX cfg = 20 \<and> rc token = None
        \<and> (\<forall>x \<in> set ts. a \<le> x \<and> x \<le> a + 60) \<and> (\<forall>x \<in> set ts. x < t' - 60)"
  then have w: "\<forall>x \<in> set ts. a \<le> x \<and> x \<le> a + of_int (RATE_LIMIT_WINDOW cfg)" by simp
  from h have n: "rc token = None" by simp
  note f = rate_calls_fresh_key[where rc = rc and token = token, OF n w]
  show "length (fst (rate_calls cfg token ts rc)) = length ts" by (simp add: f(1))
  show "\<forall>k < length ts. fst (rate_calls cfg token ts rc) ! k = (k < 20)"
    using h by (auto simp add: f(1))
  show "fst (record_and_check_rate cfg t' token (snd (rate_calls cfg token ts rc)))"
  proof (cases "ts = []")
    case True
    with h show ?thesis by (simp add: record_and_check_rate_eq pruned_def stored_def)
  next
    case False
    have "pruned cfg t' ts = [t']" using h by (intro pruned_all_expired) simp
    with h show ?thesis
      by (simp add: f(2)[OF False] record_and_check_rate_eq stored_def)
  qed
qed

theorem rate_limit_sliding_window_witness:
  "fst (rate_calls example_config ''tok'' example_times Map.empty) ! 19
   \<and> \<not> fst (rate_calls example_config ''tok'' example_times Map.empty) ! 20
   \<and> fst (record_and_check_rate example_config 121 ''tok''
            (snd (rate_calls example_config ''tok'' example_times Map.empty)))
   \<and> stored (snd (record_and_check_rate example_config 70 ''tok'' [''tok'' \<mapsto> [5, 10, 20]])) ''tok''
       = [10, 20, 70]"
proof -
  have a: "\<forall>x \<in> set example_times. (0::rat) \<le> x \<and> x \<le> 0 + 60"
    "\<forall>x \<in> set example_times. x < 121 - 60" "length example_times = 21"
    by (simp_all add: example_times_def)
  have c: "RATE_LIMIT_WINDOW example_config = 60" "RATE_LIMIT_MAX example_config = 20"
    by (simp_all add: example_config_def)
  have s: "stored [''tok'' \<mapsto> [5, 10, 20 :: rat]] ''tok'' = [5, 10, 20]"
    by (simp add: stored_def)
  have "sorted [5, 10, 20 :: rat]" by simp
  with rate_limit_sliding_window[of example_config 70 "''tok''" "[''tok'' \<mapsto> [5, 10, 20]]"
      "[]" 0 0] s c
  have 1: "stored (snd (record_and_check_rate example_config 70 ''tok'' [''tok'' \<mapsto> [5, 10, 20]])) ''tok''
       = [10, 20, 70]"
    by (simp add: stored_def)
  from rate_limit_sliding_window[of example_config 0 "''tok''" Map.empty example_times 0 121] a c
  have 2: "\<forall>k < 21. fst (rate_calls example_config ''tok'' example_times Map.empty) ! k = (k < 20)"
    and 3: "fst (record_and_check_rate example_config 121 ''tok''
            (snd (rate_calls example_config ''tok'' example_times Map.empty)))"
    by simp_all
  from 2 have "fst (rate_calls example_config ''tok'' example_times Map.empty) ! 19"
    "\<not> fst (rate_calls example_config ''tok'' example_times Map.empty) ! 20"
    by simp_all
  with 1 3 show ?thesis by simp
qed

section \<open>Properties of the handler\<close>

subsection \<open>The remote address\<close>

lemma split_on_nonempty: "split_on sep s \<noteq> []"
  by (induction s) (auto split: list.splits)

lemma hd_split_on: "hd (split_on sep s) = takeWhile (\<lambda>c. c \<noteq> sep) s"
  using split_on_nonempty by (induction s) (auto split: list.splits)

lemma derive_remote_addr_cases:
  "derive_remote_addr req =
     (case x_forwarded_for req of
        None \<Rightarrow> peer_addr req
      | Some xff \<Rightarrow> if strip (first_entry xff) \<noteq> [] then Some (strip (first_entry xff))
                    else peer_addr req)"
proof (cases "x_forwarded_for req")
  case None
  then show ?thesis by (simp add: derive_remote_addr_def)
next
  case (Some xff)
  have "xff = [] \<Longrightarrow> strip (first_entry xff) = []" by (simp add: strip_def first_entry_def)
  with Some show ?thesis
    by (auto simp add: derive_remote_addr_def hd_split_on first_entry_def)
qed

text \<open>
  C6. The remote address of the Event: when the \<open>X-Forwarded-For\<close> header is present
  and its first comma-separated entry is not empty after trimming, the trimmed entry;
  otherwise (no header, or an entry that trims to nothing) the transport peer. With the
  header \<open>203.0.113.5, 10.0.0.1\<close> and the peer \<open>192.0.2.9\<close> the address recorded is
  \<open>203.0.113.5\<close>.
\<close>

theorem remote_addr_prefers_forwarded_for:
  "(x_forwarded_for req = Some xff \<and> strip (first_entry xff) \<noteq> [] \<longrightarrow>
      ev_remote_addr (make_event token req ok_rate remote_host) = Some (strip (first_entry xff)))
   \<and> (x_forwarded_for req = None \<or> (x_forwarded_for req = Some xff \<and> strip (first_entry xff) = [])
        \<longrightarrow> ev_remote_addr (make_event token req ok_rate remote_host) = peer_addr req)
   \<and> ev_remote_addr (make_event token forwarded_request ok_rate remote_host) = Some ''203.0.113.5''"
proof -
  have "ev_remote_addr (make_event token forwarded_request ok_rate remote_host) = Some ''203.0.113.5''"
    by (simp add: make_event_def derive_remote_addr_def forwarded_request_def strip_def isspace_def)
  then show ?thesis
    by (auto simp add: make_event_def derive_remote_addr_cases)
qed

theorem remote_addr_prefers_forwarded_for_witness:
  "ev_remote_addr (make_event ''t'' forwarded_request True None) = Some ''203.0.113.5''
   \<and> ev_remote_addr (make_event ''t'' example_request True None) = Some ''10.1.2.3''
   \<and> ev_remote_addr (make_event ''t'' (forwarded_request\<lparr>x_forwarded_for := Some '' ,10.0.0.1''\<rparr>) True None)
       = Some ''192.0.2.9''"
proof -
  have a: "x_forwarded_for forwarded_request = Some ''203.0.113.5, 10.0.0.1''"
    "strip (first_entry ''203.0.113.5, 10.0.0.1'') = ''203.0.113.5''"
    "x_forwarded_for example_request = None" "peer_addr example_request = Some ''10.1.2.3''"
    "strip (first_entry '' ,10.0.0.1'') = []"
    "peer_addr forwarded_request = Some ''192.0.2.9''"
    by (simp_all add: forwarded_request_def example_request_def strip_def first_entry_def isspace_def)
  show ?thesis
    using remote_addr_prefers_forwarded_for[of forwarded_request "''203.0.113.5, 10.0.0.1''" "''t''" True None]
      remote_addr_prefers_forwarded_for[of example_request "[]" "''t''" True None]
      remote_addr_prefers_forwarded_for[of "forwarded_request\<lparr>x_forwarded_for := Some '' ,10.0.0.1''\<rparr>"
        "'' ,10.0.0.1''" "''t''" True None] a
    by simp
qed

subsection \<open>What one request does\<close>

lemma enrich_remote_host_eq:
  "enrich_remote_host lookup ip =
     Inr (case ip of
            None \<Rightarrow> None
          | Some a \<Rightarrow> if a = [] then None
                      else (case lookup a of Inl x \<Rightarrow> None | Inr h \<Rightarrow> Some h))"
  by (cases ip) (auto simp: enrich_remote_host_def try_except_def and_then_def split: sum.splits)

lemma canary_host_step:
  "(if truthy (derive_remote_addr req)
    then enrich_remote_host (gethostbyaddr e) (derive_remote_addr req)
    else Inr None) = Inr (looked_up_host e req)"
  by (cases "derive_remote_addr req") (auto simp: enrich_remote_host_eq looked_up_host_def)

lemma canary_eq:
  "canary cfg e token req st =
     (let rr = record_and_check_rate cfg (now e) token (rate_counters st);
          ev = event_of cfg e token req st
      in case commit e of
           Some x \<Rightarrow> (Inl x, st\<lparr>rate_counters := snd rr\<rparr>)
         | None \<Rightarrow>
             (Inr (''OK'', 200),
              st\<lparr>rate_counters := snd rr,
                 events := events st @ [ev],
                 dispatched := dispatched st @ [make_payload token (find_token (tokens st) token) ev (fst rr)]\<rparr>))"
  by (simp add: canary_def Let_def canary_host_step event_of_def split: prod.splits option.splits)

lemma canary_commit_ok:
  assumes "commit e = None"
  shows "fst (canary cfg e token req st) = Inr (''OK'', 200)"
    and "events (snd (canary cfg e token req st)) = events st @ [event_of cfg e token req st]"
    and "dispatched (snd (canary cfg e token req st)) = dispatched st @
           [make_payload token (find_token (tokens st) token) (event_of cfg e token req st)
              (fst (record_and_check_rate cfg (now e) token (rate_counters st)))]"
    and "rate_counters (snd (canary cfg e token req st)) =
           snd (record_and_check_rate cfg (now e) token (rate_counters st))"
    and "tokens (snd (canary cfg e token req st)) = tokens st"
  using assms by (simp_all add: canary_eq Let_def)

lemma canary_commit_fails:
  assumes "commit e = Some x"
  shows "canary cfg e token req st =
           (Inl x, st\<lparr>rate_counters := snd (record_and_check_rate cfg (now e) token (rate_counters st))\<rparr>)"
  using assms by (simp add: canary_eq Let_def)

subsection \<open>The body preview\<close>

lemma capture_body_Inr:
  "capture_body (req\<lparr>get_data := Inr d\<rparr>) =
     (if take 4096 d = [] then [] else decode_utf8_replace (take 4096 d))"
  by (simp add: capture_body_def Let_def)

text \<open>
  C5. The stored preview is the first 2000 characters of the captured text, so it never
  has more than 2000 characters; the captured text is the permissive decoding of the first
  4096 bytes of the body (empty for an empty body, and empty when reading the body
  raises), so it depends on those bytes only. This holds for the Event that the handler
  appends to the table, in particular for a body of 10000 bytes.
\<close>

theorem body_preview_capped:
  "ev_body_preview (make_event token req ok_rate remote_host) = take 2000 (capture_body req)
   \<and> length (ev_body_preview (make_event token req ok_rate remote_host)) \<le> 2000
   \<and> capture_body (req\<lparr>get_data := Inr d\<rparr>) =
        (if take 4096 d = [] then [] else decode_utf8_replace (take 4096 d))
   \<and> capture_body (req\<lparr>get_data := Inr d\<rparr>) = capture_body (req\<lparr>get_data := Inr (take 4096 d)\<rparr>)
   \<and> capture_body (req\<lparr>get_data := Inl x\<rparr>) = []
   \<and> (commit e = None \<longrightarrow>
        ev_body_preview (last (events (snd (canary cfg e token req st)))) = take 2000 (capture_body req)
        \<and> length (ev_body_preview (last (events (snd (canary cfg e token req st))))) \<le> 2000)
   \<and> (length d = 10000 \<and> commit e = None \<longrightarrow>
        ev_body_preview (last (events (snd (canary cfg e token (req\<lparr>get_data := Inr d\<rparr>) st))))
          = take 2000 (decode_utf8_replace (take 4096 d))
        \<and> length (ev_body_preview
              (last (events (snd (canary cfg e token (req\<lparr>get_data := Inr d\<rparr>) st))))) \<le> 2000)"
proof -
  have a: "ev_body_preview (make_event token req ok_rate remote_host) = take 2000 (capture_body req)"
    for token req ok_rate remote_host
    by (simp add: make_event_def)
  have b: "ev_body_preview (last (events (snd (canary cfg e token req st)))) = take 2000 (capture_body req)"
    if "commit e = None" for req
    using that by (simp add: canary_commit_ok(2) event_of_def a)
  have c: "capture_body (req\<lparr>get_data := Inr d\<rparr>) = decode_utf8_replace (take 4096 d)"
    if "length d = 10000"
  proof -
    from that have "take 4096 d \<noteq> []" by auto
    then show ?thesis by (simp add: capture_body_Inr)
  qed
  show ?thesis
    using b[of req] b[of "req\<lparr>get_data := Inr d\<rparr>"] c
    by (auto simp add: a capture_body_Inr) (simp add: capture_body_def)
qed

theorem body_preview_capped_witness:
  "ev_body_preview (last (events (snd (canary example_config example_env ''tok''
      (example_request\<lparr>get_data := Inr big_body\<rparr>) empty_state))))
     = take 2000 (decode_utf8_replace (take 4096 big_body))
   \<and> length (ev_body_preview (last (events (snd (canary example_config example_env ''tok''
      (example_request\<lparr>get_data := Inr big_body\<rparr>) empty_state))))) \<le> 2000"
proof -
  have "length big_body = 10000" "commit example_env = None"
    by (simp_all add: big_body_def example_env_def)
  with body_preview_capped[of "''tok''" "example_request\<lparr>get_data := Inr big_body\<rparr>" True None
      big_body OSError example_env example_config empty_state]
  show ?thesis by (simp add: decode_utf8_replace_def)
qed

subsection \<open>The route and its answers\<close>

lemma route_canary_eq:
  "route_canary cfg e token req st =
     (if req_method req \<notin> set CANARY_METHODS then (MethodNotAllowed, st)
      else (case commit e of
              None \<Rightarrow> (Response ''OK'' 200, snd (canary cfg e token req st))
            | Some x \<Rightarrow> (InternalServerError, snd (canary cfg e token req st))))"
  by (simp add: route_canary_def canary_eq Let_def split: option.splits)

text \<open>
  C7 (as stated). The claim says that the endpoint accepts any method. The route lists
  seven methods; a \<open>TRACE\<close> request, whose recording would succeed, is answered 405 and
  leaves the state as it was.
\<close>

theorem trace_method_rejected:
  "route_canary example_config example_env ''tok'' trace_request empty_state
     = (MethodNotAllowed, empty_state)
   \<and> commit example_env = None
   \<and> fst (route_canary example_config example_env ''tok'' trace_request empty_state)
       \<noteq> Response ''OK'' 200"
  by (simp add: route_canary_eq trace_request_def example_request_def CANARY_METHODS_def
      example_env_def)

text \<open>
  C7 (amended). For the seven methods of the route, a request whose commit succeeds is
  answered 200 with body \<open>OK\<close> and its Event is stored, whatever the classification,
  the limiter's answer and the reverse lookup are; a failed commit is answered with a
  server error and stores nothing; any other method is answered 405 and changes nothing.
  The alert sinks are not part of the request path.
\<close>

theorem canary_route_responses:
  "(req_method req \<in> set CANARY_METHODS \<and> commit e = None \<longrightarrow>
      fst (route_canary cfg e token req st) = Response ''OK'' 200
      \<and> events (snd (route_canary cfg e token req st)) = events st @ [event_of cfg e token req st])
   \<and> (req_method req \<in> set CANARY_METHODS \<and> commit e = Some x \<longrightarrow>
        fst (route_canary cfg e token req st) = InternalServerError
        \<and> events (snd (route_canary cfg e token req st)) = events st
        \<and> dispatched (snd (route_canary cfg e token req st)) = dispatched st)
   \<and> (req_method req \<notin> set CANARY_METHODS \<longrightarrow>
        route_canary cfg e token req st = (MethodNotAllowed, st))
   \<and> set CANARY_METHODS = {''GET'', ''POST'', ''PUT'', ''PATCH'', ''DELETE'', ''HEAD'', ''OPTIONS''}"
  by (auto simp add: route_canary_eq canary_commit_ok canary_commit_fails CANARY_METHODS_def)

theorem canary_route_responses_witness:
  "fst (route_canary example_config example_env ''tok'' example_request empty_state) = Response ''OK'' 200
   \<and> events (snd (route_canary example_config example_env ''tok'' example_request empty_state))
       = [event_of example_config example_env ''tok'' example_request empty_state]
   \<and> fst (route_canary example_config (example_env\<lparr>commit := Some StorageError\<rparr>) ''tok''
            example_request empty_state) = InternalServerError
   \<and> route_canary example_config example_env ''tok'' trace_request empty_state
       = (MethodNotAllowed, empty_state)"
proof -
  have m: "req_method example_request = ''GET''" "req_method trace_request = ''TRACE''"
    by (simp_all add: example_request_def trace_request_def)
  have c: "commit example_env = None" "commit (example_env\<lparr>commit := Some StorageError\<rparr>) = Some StorageError"
    "events empty_state = []"
    by (simp_all add: example_env_def empty_state_def)
  show ?thesis
    using canary_route_responses[of example_request example_env example_config "''tok''" empty_state StorageError]
      canary_route_responses[of example_request "example_env\<lparr>commit := Some StorageError\<rparr>"
        example_config "''tok''" empty_state StorageError]
      canary_route_responses[of trace_request example_env example_config "''tok''" empty_state StorageError]
      m c
    by simp
qed

subsection \<open>The token lookup\<close>

lemma find_token_None_iff: "(find_token rows token = None) = (\<not> list_ex (\<lambda>r. tok_token r = token) rows)"
  by (auto simp add: find_token_def find_None_iff list_ex_iff)

text \<open>
  C8 (as stated). The claim says that the lookup tells whether the token resolves to an
  active, unexpired Token. For a deactivated token, and for an expired one, the payload
  still says that the token exists, while the token is not resolved in the
  specification's sense.
\<close>

theorem retired_token_still_exists:
  "p_token_exists (last (dispatched (snd (canary example_config example_env ''tok'' example_request
      retired_state))))
   \<and> \<not> token_resolved (now example_env) (tokens retired_state) ''tok''
   \<and> p_token_exists (last (dispatched (snd (canary example_config example_env ''old'' example_request
      retired_state))))
   \<and> \<not> token_resolved (now example_env) (tokens retired_state) ''old''"
  by (simp add: canary_commit_ok example_env_def retired_state_def empty_state_def
      make_payload_def find_token_def token_resolved_def)

text \<open>
  C8 (amended). The lookup finds the first row with the token string, whatever its
  active flag and expiry are; the payload's \<open>token_exists\<close> says whether such a row
  exists and \<open>token_owner\<close> is that row's owner. The table of tokens has no other
  effect: the answer, the stored Events and the limiter's state are the same for every
  table, so a hit on an unknown, expired or inactive token is stored like any other, and
  the table itself is left as it was.
\<close>

theorem token_lookup_only_enriches:
  "(commit e = None \<longrightarrow>
      p_token_exists (last (dispatched (snd (canary cfg e token req st))))
        = list_ex (\<lambda>r. tok_token r = token) (tokens st)
      \<and> p_token_owner (last (dispatched (snd (canary cfg e token req st))))
        = (case find (\<lambda>r. tok_token r = token) (tokens st) of None \<Rightarrow> None | Some r \<Rightarrow> tok_owner r)
      \<and> events (snd (canary cfg e token req st)) = events st @ [event_of cfg e token req st])
   \<and> fst (canary cfg e token req (st\<lparr>tokens := rows\<rparr>)) = fst (canary cfg e token req st)
   \<and> events (snd (canary cfg e token req (st\<lparr>tokens := rows\<rparr>))) = events (snd (canary cfg e token req st))
   \<and> rate_counters (snd (canary cfg e token req (st\<lparr>tokens := rows\<rparr>)))
       = rate_counters (snd (canary cfg e token req st))
   \<and> event_of cfg e token req (st\<lparr>tokens := rows\<rparr>) = event_of cfg e token req st
   \<and> tokens (snd (canary cfg e token req st)) = tokens st"
proof -
  have i: "event_of cfg e token req (st\<lparr>tokens := rows\<rparr>) = event_of cfg e token req st"
    by (simp add: event_of_def)
  have t: "tokens (snd (canary cfg e token req st)) = tokens st"
    by (simp add: canary_eq Let_def split: option.splits)
  have r: "fst (canary cfg e token req (st\<lparr>tokens := rows\<rparr>)) = fst (canary cfg e token req st)"
    "events (snd (canary cfg e token req (st\<lparr>tokens := rows\<rparr>))) = events (snd (canary cfg e token req st))"
    "rate_counters (snd (canary cfg e token req (st\<lparr>tokens := rows\<rparr>)))
       = rate_counters (snd (canary cfg e token req st))"
    by (simp_all add: canary_eq Let_def i split: option.splits)
  have p: "p_token_exists (last (dispatched (snd (canary cfg e token req st))))
        = list_ex (\<lambda>r. tok_token r = token) (tokens st)"
    "p_token_owner (last (dispatched (snd (canary cfg e token req st))))
        = (case find (\<lambda>r. tok_token r = token) (tokens st) of None \<Rightarrow> None | Some r \<Rightarrow> tok_owner r)"
    if "commit e = None"
    using that find_token_None_iff[of "tokens st" token]
    by (simp_all add: canary_commit_ok make_payload_def find_token_def)
  show ?thesis using i t r p by (simp add: canary_commit_ok)
qed

theorem token_lookup_only_enriches_witness:
  "p_token_exists (last (dispatched (snd (canary example_config example_env ''tok'' example_request
      retired_state))))
   \<and> p_token_owner (last (dispatched (snd (canary example_config example_env ''tok'' example_request
      retired_state)))) = Some ''alice''
   \<and> \<not> p_token_exists (last (dispatched (snd (canary example_config example_env ''nope''
      example_request retired_state))))
   \<and> events (snd (canary example_config example_env ''nope'' example_request retired_state))
       = [event_of example_config example_env ''nope'' example_request retired_state]"
proof -
  have c: "commit example_env = None" "events retired_state = []"
    by (simp_all add: example_env_def retired_state_def empty_state_def)
  have l: "list_ex (\<lambda>r. tok_token r = ''tok'') (tokens retired_state)"
    "\<not> list_ex (\<lambda>r. tok_token r = ''nope'') (tokens retired_state)"
    "find (\<lambda>r. tok_token r = ''tok'') (tokens retired_state)
      = Some \<lparr>tok_token = ''tok'', tok_owner = Some ''alice'', tok_expires_at = None, tok_active = False\<rparr>"
    by (simp_all add: retired_state_def empty_state_def)
  show ?thesis
    using token_lookup_only_enriches[of example_env example_config "''tok''" example_request retired_state "[]"]
      token_lookup_only_enriches[of example_env example_config "''nope''" example_request retired_state "[]"]
      c l
    by simp
qed

subsection \<open>The \<open>Host\<close> header\<close>

text \<open>
  C2 (evaluated). A request from the public peer \<open>8.8.8.8\<close> whose \<open>Host\<close> header is the
  metadata address \<open>100.100.100.200\<close>, within the rate limit: the Event is not
  suspicious, because the \<open>Host\<close> part is only tested against the private ranges. The
  same string as a remote address is flagged, by the metadata set; a private address in
  the \<open>Host\<close> header, with a port, is flagged.
\<close>

theorem metadata_host_not_flagged:
  "\<not> ev_suspicious (make_event ''tok'' metadata_host_request True None)
   \<and> \<not> host_suspicious metadata_host_request
   \<and> remote_suspicious (Some ''100.100.100.200'')
   \<and> host_suspicious (metadata_host_request\<lparr>host_header := Some ''10.0.0.1:8080''\<rparr>)
   \<and> host_suspicious (metadata_host_request\<lparr>host_header := Some ''169.254.169.254''\<rparr>)"
proof -
  have n: "\<not> listed_private (ipv4_int 100 100 100 200)" "\<not> listed_private (ipv4_int 8 8 8 8)"
    "listed_private (ipv4_int 10 0 0 1)" "listed_private (ipv4_int 169 254 169 254)"
    by (simp_all add: listed_private_def in_block_def ipv4_int_def)
  have p: "ip_address ''10.0.0.1'' = Inr (IPv4Address (ipv4_int 10 0 0 1))"
    by (simp add: ip_address_def v4_eval)
  have h: "\<not> is_private_ip_str ''100.100.100.200''" "\<not> is_private_ip_str ''8.8.8.8''"
    "is_private_ip_str ''10.0.0.1''" "is_private_ip_str ''169.254.169.254''"
    using n by (simp_all add: is_private_v4[OF metadata_parse(3)] is_private_v4[OF public_parse]
        is_private_v4[OF p] is_private_v4[OF metadata_parse(1)])
  have m: "''8.8.8.8'' \<notin> METADATA_IPS" "''100.100.100.200'' \<in> METADATA_IPS"
    by (simp_all add: METADATA_IPS_def)
  show ?thesis
    using h m
    by (simp add: make_event_def metadata_host_request_def host_suspicious_def
        remote_suspicious_def derive_remote_addr_def)
qed

section \<open>Best-effort steps are total\<close>

lemma try_except_total: "\<exists>v. try_except body dflt = Inr v"
  by (cases body) (simp_all add: try_except_def)

lemma send_webhook_eq:
  "send_webhook cfg nw p =
     Inr (case ALERT_WEBHOOK cfg of
            None \<Rightarrow> False
          | Some url \<Rightarrow> url \<noteq> [] \<and>
              (case requests_post nw url p of
                 Inl x \<Rightarrow> False
               | Inr status_code \<Rightarrow> 200 \<le> status_code \<and> status_code < 300))"
  by (auto simp: send_webhook_def try_except_def and_then_def split: option.splits sum.splits)

lemma unit_sum_cases: "(m :: exn + unit) = Inr () \<or> (\<exists>x. m = Inl x)"
  by (cases m) auto

lemma send_email_eq:
  "send_email cfg nw to_addr =
     Inr (case (SMTP_HOST cfg, to_addr) of
            (Some h, Some a) \<Rightarrow> h \<noteq> [] \<and> a \<noteq> [] \<and> smtp_steps_ok cfg nw h a
          | _ \<Rightarrow> False)"
proof (cases "SMTP_HOST cfg")
  case None
  then show ?thesis by (simp add: send_email_def)
next
  case (Some h)
  note sh = Some
  show ?thesis
  proof (cases to_addr)
    case None
    with sh show ?thesis by (simp add: send_email_def)
  next
    case (Some a)
    show ?thesis
    proof (cases "h = [] \<or> a = []")
      case True
      with sh Some show ?thesis by (auto simp add: send_email_def)
    next
      case False
      with sh Some show ?thesis
        using unit_sum_cases[of "build_message nw a"] unit_sum_cases[of "smtp_connect nw h"]
          unit_sum_cases[of "smtp_send_message nw"] unit_sum_cases[of "smtp_quit nw"]
        by (cases "SMTP_USER cfg"; cases "SMTP_PASS cfg")
           (auto simp add: send_email_def try_except_def and_then_def smtp_steps_ok_def
             split: sum.splits)
    qed
  qed
qed

lemma worker_eq:
  "worker cfg nw p =
     Inr \<lparr>webhook_result = (case send_webhook cfg nw p of Inl x \<Rightarrow> None | Inr b \<Rightarrow> Some b),
          email_attempted = truthy (ALERT_EMAIL cfg),
          email_result = (if truthy (ALERT_EMAIL cfg)
                          then (case send_email cfg nw (ALERT_EMAIL cfg) of
                                  Inl x \<Rightarrow> None | Inr b \<Rightarrow> Some b)
                          else None)\<rparr>"
  by (simp add: worker_def send_webhook_eq send_email_eq try_except_def and_then_def)

text \<open>
  C9. Each best-effort step returns a value and never an exception. The reverse lookup
  gives no host name when there is no address or when the lookup raises. The webhook
  delivery gives \<open>False\<close> when no webhook is configured, when the POST raises and when
  the status is outside 200 to 299. The e-mail delivery gives \<open>False\<close> when no SMTP host
  or no recipient is configured and when building the message, connecting, logging in,
  sending or quitting raises. The background worker always finishes, attempts the e-mail
  exactly when \<open>ALERT_EMAIL\<close> is set, and what it does with the e-mail does not depend
  on the answer to the POST. In the request path, a failing lookup leaves the answer
  \<open>('OK', 200)\<close> and records no host name.
\<close>

theorem best_effort_steps_swallow_failures:
  "(\<exists>h. enrich_remote_host lookup ip = Inr h)
   \<and> (\<not> truthy ip \<longrightarrow> enrich_remote_host lookup ip = Inr None)
   \<and> (lookup a = Inl x \<longrightarrow> enrich_remote_host lookup (Some a) = Inr None)
   \<and> (\<exists>b. send_webhook cfg nw p = Inr b)
   \<and> (\<not> truthy (ALERT_WEBHOOK cfg) \<longrightarrow> send_webhook cfg nw p = Inr False)
   \<and> (ALERT_WEBHOOK cfg = Some url \<and> requests_post nw url p = Inl x \<longrightarrow>
        send_webhook cfg nw p = Inr False)
   \<and> (ALERT_WEBHOOK cfg = Some url \<and> requests_post nw url p = Inr code \<and> (code < 200 \<or> 300 \<le> code)
        \<longrightarrow> send_webhook cfg nw p = Inr False)
   \<and> (\<exists>b. send_email cfg nw to_addr = Inr b)
   \<and> (\<not> truthy (SMTP_HOST cfg) \<or> \<not> truthy to_addr \<longrightarrow> send_email cfg nw to_addr = Inr False)
   \<and> (SMTP_HOST cfg = Some h \<and>
        (build_message nw a = Inl x \<or> smtp_connect nw h = Inl x
         \<or> (SMTP_USER cfg = Some u \<and> SMTP_PASS cfg = Some pw \<and> u \<noteq> [] \<and> pw \<noteq> []
             \<and> smtp_login nw u pw = Inl x)
         \<or> smtp_send_message nw = Inl x \<or> smtp_quit nw = Inl x)
        \<longrightarrow> send_email cfg nw (Some a) = Inr False)
   \<and> (\<exists>r. worker cfg nw p = Inr r \<and> email_attempted r = truthy (ALERT_EMAIL cfg))
   \<and> (\<exists>r r'. worker cfg nw p = Inr r \<and> worker cfg (nw\<lparr>requests_post := post'\<rparr>) p = Inr r'
         \<and> email_attempted r' = email_attempted r \<and> email_result r' = email_result r)
   \<and> (commit e = None \<longrightarrow>
        fst (canary cfg (e\<lparr>gethostbyaddr := (\<lambda>a. Inl x)\<rparr>) token req st) = Inr (''OK'', 200)
        \<and> ev_remote_host (last (events (snd (canary cfg (e\<lparr>gethostbyaddr := (\<lambda>a. Inl x)\<rparr>) token req st))))
            = None)"
proof -
  have e1: "\<exists>h. enrich_remote_host lookup ip = Inr h" by (simp add: enrich_remote_host_eq)
  have e2: "\<not> truthy ip \<longrightarrow> enrich_remote_host lookup ip = Inr None"
    by (cases ip) (auto simp: enrich_remote_host_eq)
  have e3: "lookup a = Inl x \<longrightarrow> enrich_remote_host lookup (Some a) = Inr None"
    by (simp add: enrich_remote_host_eq)
  have w1: "\<exists>b. send_webhook cfg nw p = Inr b" by (simp add: send_webhook_eq)
  have w2: "\<not> truthy (ALERT_WEBHOOK cfg) \<longrightarrow> send_webhook cfg nw p = Inr False"
    by (cases "ALERT_WEBHOOK cfg") (auto simp: send_webhook_eq)
  have w3: "ALERT_WEBHOOK cfg = Some url \<and> requests_post nw url p = Inl x \<longrightarrow>
        send_webhook cfg nw p = Inr False"
    by (simp add: send_webhook_eq)
  have w4: "ALERT_WEBHOOK cfg = Some url \<and> requests_post nw url p = Inr code \<and> (code < 200 \<or> 300 \<le> code)
        \<longrightarrow> send_webhook cfg nw p = Inr False"
    by (auto simp add: send_webhook_eq)
  have m1: "\<exists>b. send_email cfg nw to_addr = Inr b" by (simp add: send_email_eq)
  have m2: "\<not> truthy (SMTP_HOST cfg) \<or> \<not> truthy to_addr \<longrightarrow> send_email cfg nw to_addr = Inr False"
    by (cases "SMTP_HOST cfg"; cases to_addr) (auto simp: send_email_eq)
  have m3: "SMTP_HOST cfg = Some h \<and>
        (build_message nw a = Inl x \<or> smtp_connect nw h = Inl x
         \<or> (SMTP_USER cfg = Some u \<and> SMTP_PASS cfg = Some pw \<and> u \<noteq> [] \<and> pw \<noteq> []
             \<and> smtp_login nw u pw = Inl x)
         \<or> smtp_send_message nw = Inl x \<or> smtp_quit nw = Inl x)
        \<longrightarrow> send_email cfg nw (Some a) = Inr False"
    by (auto simp add: send_email_eq smtp_steps_ok_def)
  have k1: "\<exists>r. worker cfg nw p = Inr r \<and> email_attempted r = truthy (ALERT_EMAIL cfg)"
    by (simp add: worker_eq)
  have se: "send_email cfg (nw\<lparr>requests_post := post'\<rparr>) t = send_email cfg nw t" for t
    by (cases "SMTP_HOST cfg"; cases t)
       (simp_all add: send_email_eq smtp_steps_ok_def split: option.splits)
  have k2: "\<exists>r r'. worker cfg nw p = Inr r \<and> worker cfg (nw\<lparr>requests_post := post'\<rparr>) p = Inr r'
         \<and> email_attempted r' = email_attempted r \<and> email_result r' = email_result r"
    by (simp add: worker_eq se)
  have c1: "commit e = None \<longrightarrow>
        fst (canary cfg (e\<lparr>gethostbyaddr := (\<lambda>a. Inl x)\<rparr>) token req st) = Inr (''OK'', 200)
        \<and> ev_remote_host (last (events (snd (canary cfg (e\<lparr>gethostbyaddr := (\<lambda>a. Inl x)\<rparr>) token req st))))
            = None"
    by (auto simp add: canary_commit_ok event_of_def make_event_def looked_up_host_def
        split: option.splits)
  show ?thesis
    using e1 e2 e3 w1 w2 w3 w4 m1 m2 m3 k1 k2 c1 by blast
qed

theorem best_effort_steps_swallow_failures_witness:
  "enrich_remote_host (\<lambda>a. Inl OSError) (Some ''10.1.2.3'') = Inr None
   \<and> enrich_remote_host (\<lambda>a. Inl OSError) None = Inr None
   \<and> send_webhook example_config failing_net example_payload = Inr False
   \<and> send_webhook alerting_config failing_net example_payload = Inr False
   \<and> send_webhook alerting_config (failing_net\<lparr>requests_post := (\<lambda>url p. Inr 500)\<rparr>) example_payload
       = Inr False
   \<and> send_email example_config failing_net (Some ''ops@example.com'') = Inr False
   \<and> send_email alerting_config failing_net (Some ''ops@example.com'') = Inr False
   \<and> fst (canary example_config (example_env\<lparr>gethostbyaddr := (\<lambda>a. Inl OSError)\<rparr>) ''tok''
            example_request empty_state) = Inr (''OK'', 200)"
proof -
  have f: "\<not> truthy None" "\<not> truthy (ALERT_WEBHOOK example_config)"
    "ALERT_WEBHOOK alerting_config = Some ''https://hooks.example.com/x''"
    "requests_post failing_net ''https://hooks.example.com/x'' example_payload = Inl RequestException"
    "requests_post (failing_net\<lparr>requests_post := (\<lambda>url p. Inr 500)\<rparr>) ''https://hooks.example.com/x''
       example_payload = Inr 500"
    "\<not> truthy (SMTP_HOST example_config)"
    "SMTP_HOST alerting_config = Some ''smtp.example.com''"
    "smtp_connect failing_net ''smtp.example.com'' = Inl OSError"
    "commit example_env = None"
    by (simp_all add: example_config_def alerting_config_def failing_net_def example_env_def)
  note t = best_effort_steps_swallow_failures
  from t[where lookup = "\<lambda>a. Inl OSError" and ip = None and a = "''10.1.2.3''" and x = OSError
      and cfg = example_config and nw = failing_net and p = example_payload
      and to_addr = "Some ''ops@example.com''" and e = example_env and token = "''tok''"
      and req = example_request and st = empty_state] f
  have 1: "enrich_remote_host (\<lambda>a. Inl OSError) (Some ''10.1.2.3'') = Inr None"
    "enrich_remote_host (\<lambda>a. Inl OSError) None = Inr None"
    "send_webhook example_config failing_net example_payload = Inr False"
    "send_email example_config failing_net (Some ''ops@example.com'') = Inr False"
    "fst (canary example_config (example_env\<lparr>gethostbyaddr := (\<lambda>a. Inl OSError)\<rparr>) ''tok''
            example_request empty_state) = Inr (''OK'', 200)"
    by simp_all
  from t[where cfg = alerting_config and nw = failing_net and p = example_payload
      and url = "''https://hooks.example.com/x''" and x = RequestException] f
  have 2: "send_webhook alerting_config failing_net example_payload = Inr False"
    by simp
  from t[where cfg = alerting_config and nw = "failing_net\<lparr>requests_post := (\<lambda>url p. Inr 500)\<rparr>"
      and p = example_payload and url = "''https://hooks.example.com/x''" and code = 500] f
  have 3: "send_webhook alerting_config (failing_net\<lparr>requests_post := (\<lambda>url p. Inr 500)\<rparr>)
       example_payload = Inr False"
    by simp
  from t[where cfg = alerting_config and nw = failing_net and h = "''smtp.example.com''"
      and a = "''ops@example.com''" and x = OSError] f
  have 4: "send_email alerting_config failing_net (Some ''ops@example.com'') = Inr False"
    by simp
  from 1 2 3 4 show ?thesis by simp
qed

section \<open>Requests beyond the rate limit\<close>

lemma route_step:
  assumes "req_method req \<in> set CANARY_METHODS" "commit e = None"
    and "\<forall>x \<in> set (stored (rate_counters st) token). now e - of_int (RATE_LIMIT_WINDOW cfg) \<le> x"
  shows "fst (route_canary cfg e token req st) = Response ''OK'' 200"
    and "events (snd (route_canary cfg e token req st)) =
           events st @ [make_event token req
              (int (length (stored (rate_counters st) token) + 1) \<le> RATE_LIMIT_MAX cfg)
              (looked_up_host e req)]"
    and "stored (rate_counters (snd (route_canary cfg e token req st))) token
           = stored (rate_counters st) token @ [now e]"
proof -
  have rr: "record_and_check_rate cfg (now e) token (rate_counters st) =
      (int (length (stored (rate_counters st) token) + 1) \<le> RATE_LIMIT_MAX cfg,
       (rate_counters st)(token \<mapsto> stored (rate_counters st) token @ [now e]))"
    by (simp add: record_and_check_rate_eq pruned_in_window[OF assms(3)])
  show "fst (route_canary cfg e token req st) = Response ''OK'' 200"
    using assms by (simp add: route_canary_eq)
  show "events (snd (route_canary cfg e token req st)) =
           events st @ [make_event token req
              (int (length (stored (rate_counters st) token) + 1) \<le> RATE_LIMIT_MAX cfg)
              (looked_up_host e req)]"
    using assms(1,2) by (simp add: route_canary_eq canary_commit_ok event_of_def rr)
  show "stored (rate_counters (snd (route_canary cfg e token req st))) token
           = stored (rate_counters st) token @ [now e]"
    using assms(1,2) by (simp add: route_canary_eq canary_commit_ok rr stored_def)
qed

lemma serve_burst:
  assumes "\<forall>(e, req) \<in> set rs. req_method req \<in> set CANARY_METHODS \<and> commit e = None
             \<and> a \<le> now e \<and> now e \<le> a + of_int (RATE_LIMIT_WINDOW cfg)"
    and "\<forall>x \<in> set (stored (rate_counters st) token). a \<le> x \<and> x \<le> a + of_int (RATE_LIMIT_WINDOW cfg)"
  shows "fst (serve cfg token rs st) = replicate (length rs) (Response ''OK'' 200)
       \<and> length (events (snd (serve cfg token rs st))) = length (events st) + length rs
       \<and> take (length (events st)) (events (snd (serve cfg token rs st))) = events st
       \<and> (\<forall>i < length rs.
            RATE_LIMIT_MAX cfg < int (length (stored (rate_counters st) token) + i + 1) \<longrightarrow>
            ev_suspicious (events (snd (serve cfg token rs st)) ! (length (events st) + i)))"
  using assms
proof (induction rs arbitrary: st)
  case Nil
  then show ?case by simp
next
  case (Cons r rs)
  obtain e req where r: "r = (e, req)" by (cases r)
  let ?arr = "stored (rate_counters st) token"
  let ?st1 = "snd (route_canary cfg e token req st)"
  let ?ev = "make_event token req (int (length ?arr + 1) \<le> RATE_LIMIT_MAX cfg) (looked_up_host e req)"
  from Cons.prems(1) r have h: "req_method req \<in> set CANARY_METHODS" "commit e = None"
    "a \<le> now e" "now e \<le> a + of_int (RATE_LIMIT_WINDOW cfg)"
    by auto
  have w: "\<forall>x \<in> set ?arr. now e - of_int (RATE_LIMIT_WINDOW cfg) \<le> x"
  proof
    fix x assume "x \<in> set ?arr"
    then have "a \<le> x" using Cons.prems(2) by auto
    with h(4) show "now e - of_int (RATE_LIMIT_WINDOW cfg) \<le> x" by linarith
  qed
  note s = route_step[OF h(1,2) w]
  have p1: "\<forall>(e, req) \<in> set rs. req_method req \<in> set CANARY_METHODS \<and> commit e = None
             \<and> a \<le> now e \<and> now e \<le> a + of_int (RATE_LIMIT_WINDOW cfg)"
    using Cons.prems(1) by auto
  have p2: "\<forall>x \<in> set (stored (rate_counters ?st1) token). a \<le> x \<and> x \<le> a + of_int (RATE_LIMIT_WINDOW cfg)"
    using Cons.prems(2) h(3,4) by (auto simp: s(3))
  note ih = Cons.IH[OF p1 p2, unfolded s(2) s(3)]
  let ?fin = "snd (serve cfg token rs ?st1)"
  have sv: "serve cfg token (r # rs) st =
      (fst (route_canary cfg e token req st) # fst (serve cfg token rs ?st1), ?fin)"
    by (simp add: r split: prod.splits)
  from ih have i1: "fst (serve cfg token rs ?st1) = replicate (length rs) (Response ''OK'' 200)"
    and i2: "length (events ?fin) = length (events st @ [?ev]) + length rs"
    and i3: "take (length (events st @ [?ev])) (events ?fin) = events st @ [?ev]"
    and i4: "\<forall>i < length rs. RATE_LIMIT_MAX cfg < int (length (?arr @ [now e]) + i + 1) \<longrightarrow>
            ev_suspicious (events ?fin ! (length (events st @ [?ev]) + i))"
    by blast+
  have c1: "fst (serve cfg token (r # rs) st) = replicate (length (r # rs)) (Response ''OK'' 200)"
    by (simp add: sv s(1) i1)
  have c2: "length (events (snd (serve cfg token (r # rs) st))) = length (events st) + length (r # rs)"
    using i2 by (simp add: sv)
  have c3: "take (length (events st)) (events (snd (serve cfg token (r # rs) st))) = events st"
  proof -
    have "take (length (events st)) (take (length (events st @ [?ev])) (events ?fin)) = events st"
      by (simp only: i3) simp
    then show ?thesis by (simp add: sv min_def)
  qed
  have hd_ev: "events ?fin ! length (events st) = ?ev"
  proof -
    have "take (length (events st @ [?ev])) (events ?fin) ! length (events st) = ?ev"
      by (simp only: i3) simp
    then show ?thesis by simp
  qed
  have c4: "\<forall>i < length (r # rs).
            RATE_LIMIT_MAX cfg < int (length ?arr + i + 1) \<longrightarrow>
            ev_suspicious (events (snd (serve cfg token (r # rs) st)) ! (length (events st) + i))"
  proof (intro allI impI)
    fix i assume i: "i < length (r # rs)" and m: "RATE_LIMIT_MAX cfg < int (length ?arr + i + 1)"
    show "ev_suspicious (events (snd (serve cfg token (r # rs) st)) ! (length (events st) + i))"
    proof (cases i)
      case 0
      with m have "ev_suspicious ?ev" by (simp add: make_event_def)
      with 0 show ?thesis by (simp add: sv hd_ev)
    next
      case (Suc j)
      with i m have "j < length rs" "RATE_LIMIT_MAX cfg < int (length (?arr @ [now e]) + j + 1)"
        by simp_all
      with i4 have "ev_suspicious (events ?fin ! (length (events st @ [?ev]) + j))" by blast
      with Suc show ?thesis by (simp add: sv)
    qed
  qed
  from c1 c2 c3 c4 show ?case by blast
qed

text \<open>
  C4. A denial by the limiter does not change what happens to the request: for a method
  of the route and a commit that succeeds, the answer is 200 \<open>OK\<close> and the Event is
  stored, and the Event's flag is the address classification (remote address or
  \<open>Host\<close>) or the denial. With a window of 60 and a maximum of 20, 25 such requests to
  one fresh token within one second are all answered 200 \<open>OK\<close>, add 25 Events after
  those already stored, and the last five of them are suspicious, whatever their
  addresses are.
\<close>

theorem rate_denial_only_flags:
  "(req_method req \<in> set CANARY_METHODS \<and> commit e = None \<longrightarrow>
      fst (route_canary cfg e token req st) = Response ''OK'' 200
      \<and> events (snd (route_canary cfg e token req st)) = events st @ [event_of cfg e token req st]
      \<and> ev_suspicious (event_of cfg e token req st) =
          ((remote_suspicious (derive_remote_addr req) \<or> host_suspicious req)
           \<or> \<not> fst (record_and_check_rate cfg (now e) token (rate_counters st))))
   \<and> (RATE_LIMIT_WINDOW cfg = 60 \<and> RATE_LIMIT_MAX cfg = 20 \<and> rate_counters st token = None
        \<and> length rs = 25
        \<and> (\<forall>(e, req) \<in> set rs. req_method req \<in> set CANARY_METHODS \<and> commit e = None
              \<and> a \<le> now e \<and> now e \<le> a + 1) \<longrightarrow>
        fst (serve cfg token rs st) = replicate 25 (Response ''OK'' 200)
        \<and> length (events (snd (serve cfg token rs st))) = length (events st) + 25
        \<and> take (length (events st)) (events (snd (serve cfg token rs st))) = events st
        \<and> (\<forall>i. 20 \<le> i \<and> i < 25 \<longrightarrow>
              ev_suspicious (events (snd (serve cfg token rs st)) ! (length (events st) + i))))"
proof (intro conjI impI)
  assume h: "req_method req \<in> set CANARY_METHODS \<and> commit e = None"
  then show "fst (route_canary cfg e token req st) = Response ''OK'' 200"
    and "events (snd (route_canary cfg e token req st)) = events st @ [event_of cfg e token req st]"
    by (simp_all add: route_canary_eq canary_commit_ok)
  show "ev_suspicious (event_of cfg e token req st) =
          ((remote_suspicious (derive_remote_addr req) \<or> host_suspicious req)
           \<or> \<not> fst (record_and_check_rate cfg (now e) token (rate_counters st)))"
    by (simp add: event_of_def make_event_def)
next
  assume h: "RATE_LIMIT_WINDOW cfg = 60 \<and> RATE_LIMIT_MAX cfg = 20 \<and> rate_counters st token = None
        \<and> length rs = 25
        \<and> (\<forall>(e, req) \<in> set rs. req_method req \<in> set CANARY_METHODS \<and> commit e = None
              \<and> a \<le> now e \<and> now e \<le> a + 1)"
  then have s: "stored (rate_counters st) token = []" by (simp add: stored_def)
  have p1: "\<forall>(e, req) \<in> set rs. req_method req \<in> set CANARY_METHODS \<and> commit e = None
             \<and> a \<le> now e \<and> now e \<le> a + of_int (RATE_LIMIT_WINDOW cfg)"
    using h by fastforce
  have p2: "\<forall>x \<in> set (stored (rate_counters st) token). a \<le> x \<and> x \<le> a + of_int (RATE_LIMIT_WINDOW cfg)"
    by (simp add: s)
  note b = serve_burst[OF p1 p2, unfolded s]
  from b h show "fst (serve cfg token rs st) = replicate 25 (Response ''OK'' 200)" by simp
  from b h show "length (events (snd (serve cfg token rs st))) = length (events st) + 25" by simp
  from b show "take (length (events st)) (events (snd (serve cfg token rs st))) = events st" by simp
  from b h show "\<forall>i. 20 \<le> i \<and> i < 25 \<longrightarrow>
              ev_suspicious (events (snd (serve cfg token rs st)) ! (length (events st) + i))"
    by simp
qed

theorem rate_denial_only_flags_witness:
  "fst (serve example_config ''tok'' burst_requests empty_state) = replicate 25 (Response ''OK'' 200)
   \<and> length (events (snd (serve example_config ''tok'' burst_requests empty_state))) = 25
   \<and> ev_suspicious (events (snd (serve example_config ''tok'' burst_requests empty_state)) ! 20)
   \<and> ev_suspicious (events (snd (serve example_config ''tok'' burst_requests empty_state)) ! 24)
   \<and> \<not> remote_suspicious (derive_remote_addr forwarded_request)
   \<and> \<not> host_suspicious forwarded_request
   \<and> fst (route_canary example_config example_env ''tok'' forwarded_request empty_state)
       = Response ''OK'' 200"
proof -
  have c: "RATE_LIMIT_WINDOW example_config = 60" "RATE_LIMIT_MAX example_config = 20"
    "rate_counters empty_state ''tok'' = None" "events empty_state = []"
    "commit example_env = None" "req_method forwarded_request = ''GET''"
    by (simp_all add: example_config_def empty_state_def example_env_def forwarded_request_def)
  have l: "length burst_requests = 25" by (simp add: burst_requests_def)
  have m: "''GET'' \<in> set CANARY_METHODS" by (simp add: CANARY_METHODS_def)
  have q: "\<forall>(e, req) \<in> set burst_requests. req_method req \<in> set CANARY_METHODS \<and> commit e = None
              \<and> 0 \<le> now e \<and> now e \<le> 0 + 1"
    using m by (auto simp add: burst_requests_def c example_env_def)
  have r: "derive_remote_addr forwarded_request = Some ''203.0.113.5''"
    by (simp add: derive_remote_addr_def forwarded_request_def strip_def isspace_def)
  have p: "ip_address ''203.0.113.5'' = Inr (IPv4Address (ipv4_int 203 0 113 5))"
    "ip_address ''canary.example.com'' = Inl ValueError"
    by (simp_all add: ip_address_def v4_eval v6_eval)
  have n: "\<not> listed_private (ipv4_int 203 0 113 5)" "''203.0.113.5'' \<notin> METADATA_IPS"
    by (simp_all add: listed_private_def in_block_def ipv4_int_def METADATA_IPS_def)
  have a1: "\<not> remote_suspicious (derive_remote_addr forwarded_request)"
    using n by (simp add: r remote_suspicious_v4[OF p(1)])
  have a2: "\<not> host_suspicious forwarded_request"
    by (simp add: host_suspicious_def forwarded_request_def is_private_ip_str_def p(2))
  from rate_denial_only_flags[of forwarded_request example_env example_config "''tok''" empty_state
      burst_requests 0] c l m q
  have "fst (serve example_config ''tok'' burst_requests empty_state) = replicate 25 (Response ''OK'' 200)"
    "length (events (snd (serve example_config ''tok'' burst_requests empty_state))) = 25"
    "\<forall>i. 20 \<le> i \<and> i < 25 \<longrightarrow>
       ev_suspicious (events (snd (serve example_config ''tok'' burst_requests empty_state)) ! i)"
    "fst (route_canary example_config example_env ''tok'' forwarded_request empty_state)
       = Response ''OK'' 200"
    by simp_all
  with a1 a2 show ?thesis by simp
qed

end
